theory Spec2Isabelle
  imports Main "HOL-Library.Sublist"
begin

section \<open>C strings and numbers\<close>

text \<open>
  The three programs (frontend \<^verbatim>\<open>awesh.c\<close>, sandbox \<^verbatim>\<open>awesh_sandbox.c\<close>, proxy
  \<^verbatim>\<open>security_agent.c\<close>) pass \<^verbatim>\<open>char\<close> buffers around and read them with the C
  string functions. A buffer is a \<^typ>\<open>string\<close> (a list of bytes); the C string a
  function sees in it ends before the first NUL byte.
\<close>

definition c_str :: "string \<Rightarrow> string" where
  "c_str buf = takeWhile (\<lambda>c. c \<noteq> CHR 0x00) buf"

text \<open>\<^verbatim>\<open>strstr(hay, needle)\<close>: the suffix of \<open>hay\<close> at the first occurrence, or NULL.\<close>

fun strstr :: "string \<Rightarrow> string \<Rightarrow> string option" where
  "strstr [] needle = (if needle = [] then Some [] else None)"
| "strstr (h # hs) needle =
     (if prefix needle (h # hs) then Some (h # hs) else strstr hs needle)"

definition contains :: "string \<Rightarrow> string \<Rightarrow> bool" where
  "contains hay needle = (strstr hay needle \<noteq> None)"

text \<open>\<^verbatim>\<open>strchr(s, c)\<close> used as a truth value.\<close>

definition has_char :: "string \<Rightarrow> char \<Rightarrow> bool" where
  "has_char s c = (c \<in> set s)"

text \<open>\<^verbatim>\<open>isspace\<close> and \<^verbatim>\<open>tolower\<close> in the C locale.\<close>

definition isspace :: "char \<Rightarrow> bool" where
  "isspace c = (c \<in> set [CHR '' '', CHR 0x09, CHR 0x0A, CHR 0x0B, CHR 0x0C, CHR 0x0D])"

definition tolower :: "char \<Rightarrow> char" where
  "tolower c =
     (case map_of (zip ''ABCDEFGHIJKLMNOPQRSTUVWXYZ'' ''abcdefghijklmnopqrstuvwxyz'') c of
        Some l \<Rightarrow> l | None \<Rightarrow> c)"

text \<open>
  \<^verbatim>\<open>snprintf\<close> with \<^verbatim>\<open>%zu\<close> and \<^verbatim>\<open>%d\<close> prints decimal digits; \<^verbatim>\<open>atoi\<close> skips
  white space, reads an optional sign and the digits that follow, and stops at the first
  other character. Out of range it behaves as the GNU library does: \<^verbatim>\<open>strtol\<close>
  saturates at the bounds of \<^verbatim>\<open>long\<close> and the conversion to \<^verbatim>\<open>int\<close> keeps the low
  32 bits.
\<close>

definition digit_val :: "char \<Rightarrow> int option" where
  "digit_val c = map_of (zip ''0123456789'' [0, 1, 2, 3, 4, 5, 6, 7, 8, 9]) c"

definition digit_char :: "nat \<Rightarrow> char" where
  "digit_char d = ''0123456789'' ! d"

fun show_nat :: "nat \<Rightarrow> string" where
  "show_nat n =
     (if n < 10 then [digit_char n] else show_nat (n div 10) @ [digit_char (n mod 10)])"

declare show_nat.simps [simp del]

definition show_int :: "int \<Rightarrow> string" where
  "show_int i = (if i < 0 then CHR ''-'' # show_nat (nat (- i)) else show_nat (nat i))"

fun digits_val :: "int \<Rightarrow> string \<Rightarrow> int" where
  "digits_val acc [] = acc"
| "digits_val acc (c # cs) =
     (case digit_val c of Some d \<Rightarrow> digits_val (acc * 10 + d) cs | None \<Rightarrow> acc)"

definition strtol :: "string \<Rightarrow> int" where
  "strtol s =
     (let t = dropWhile isspace s;
          v = (case t of
                 [] \<Rightarrow> 0
               | c # cs \<Rightarrow> if c = CHR ''-'' then - digits_val 0 cs
                           else if c = CHR ''+'' then digits_val 0 cs
                           else digits_val 0 (c # cs))
      in max (- (2 ^ 63)) (min (2 ^ 63 - 1) v))"

definition to_int32 :: "int \<Rightarrow> int" where
  "to_int32 v = (v + 2 ^ 31) mod 2 ^ 32 - 2 ^ 31"

definition atoi :: "string \<Rightarrow> int" where
  "atoi s = to_int32 (strtol s)"

section \<open>Security proxy (\<^verbatim>\<open>security_agent.c\<close>)\<close>

subsection \<open>The pattern lists\<close>

text \<open>
  \<^verbatim>\<open>init_security_patterns\<close> compiles ten extended regular expressions with the C
  library's \<^verbatim>\<open>regcomp\<close>. They use two constructs only: literal characters and
  \<^verbatim>\<open>\s+\<close> (one or more white-space characters). \<open>regcomp\<close> reads a pattern text in
  that fragment; \<open>regexec\<close> searches a C string for a match starting anywhere, as the
  library does for an unanchored pattern.
\<close>

datatype re_atom = Lit char | SpacePlus

fun regcomp :: "string \<Rightarrow> re_atom list" where
  "regcomp [] = []"
| "regcomp (c # cs) =
     (if c = CHR 0x5C \<and> prefix ''s+'' cs then SpacePlus # regcomp (drop 2 cs)
      else Lit c # regcomp cs)"

fun match_here :: "re_atom list \<Rightarrow> string \<Rightarrow> bool" where
  "match_here [] s = True"
| "match_here (a # p) [] = False"
| "match_here (Lit c # p) (x # xs) = (x = c \<and> match_here p xs)"
| "match_here (SpacePlus # p) (x # xs) =
     (isspace x \<and> (match_here (SpacePlus # p) xs \<or> match_here p xs))"

fun regexec :: "re_atom list \<Rightarrow> string \<Rightarrow> bool" where
  "regexec p [] = match_here p []"
| "regexec p (x # xs) = (match_here p (x # xs) \<or> regexec p xs)"

definition ws_plus :: string where
  "ws_plus = [CHR 0x5C] @ ''s+''"

definition dangerous_patterns :: "re_atom list list" where
  "dangerous_patterns = map regcomp
     [''rm'' @ ws_plus @ ''-rf'' @ ws_plus @ ''/'',
      ''sudo'' @ ws_plus @ ''rm'' @ ws_plus @ ''-rf'',
      ''dd'' @ ws_plus @ ''if=/dev/urandom'',
      ''mkfs'' @ ws_plus,
      ''fdisk'' @ ws_plus]"

definition sensitive_patterns :: "re_atom list list" where
  "sensitive_patterns = map regcomp
     [''passwd'' @ ws_plus,
      ''chmod'' @ ws_plus @ ''777'',
      ''chown'' @ ws_plus,
      ''iptables'' @ ws_plus,
      ''systemctl'' @ ws_plus]"

subsection \<open>\<^verbatim>\<open>validate_command\<close>\<close>

text \<open>
  The argument is the receive buffer, NUL-terminated by the caller; every test reads it
  as a C string. The result is the C truth value: \<open>True\<close> allows, \<open>False\<close> blocks.
\<close>

definition is_system_command :: "string \<Rightarrow> bool" where
  "is_system_command command =
     (prefix ''CWD:'' command \<or> command = ''STATUS'' \<or> prefix ''BASH_FAILED:'' command)"

definition validate_command :: "string \<Rightarrow> bool" where
  "validate_command buffer =
     (let command = c_str buffer in
      if is_system_command command then True
      else if list_ex (\<lambda>p. regexec p command) dangerous_patterns then False
      else if list_ex (\<lambda>p. regexec p command) sensitive_patterns then False
      else if contains command ''rm'' \<and> contains command ''-rf'' then False
      else True)"

subsection \<open>The relay loop of \<^verbatim>\<open>main\<close>\<close>

text \<open>
  One pass of the inner loop issues \<^verbatim>\<open>send\<close> calls on the two sockets and either goes
  on or leaves the loop. A receive is given by the bytes it returned (the empty list
  when \<^verbatim>\<open>recv\<close> returned zero or an error, at most 4095 bytes otherwise); \<open>ok\<close>
  says whether the forwarding \<^verbatim>\<open>send\<close> succeeded. \<open>SendBackend b\<close> is the call
  \<^verbatim>\<open>send(backend_socket_fd, b, bytes, 0)\<close>, \<open>SendFrontend b\<close> the call on
  \<^verbatim>\<open>client_fd\<close>. Diagnostic output on \<^verbatim>\<open>stderr\<close> is left out.
\<close>

datatype proxy_action = SendBackend string | SendFrontend string

datatype loop_ctl = Continue | Break

definition error_msg :: string where
  "error_msg = ''SECURITY_BLOCKED: Command blocked by security agent'' @ [CHR 0x0A]"

definition from_frontend :: "string \<Rightarrow> bool \<Rightarrow> proxy_action list \<times> loop_ctl" where
  "from_frontend buffer ok =
     (if length buffer = 0 then ([], Break)
      else if validate_command buffer
        then ([SendBackend buffer], if ok then Continue else Break)
      else ([SendFrontend error_msg], Continue))"

definition from_backend :: "string \<Rightarrow> bool \<Rightarrow> proxy_action list \<times> loop_ctl" where
  "from_backend buffer ok =
     (if length buffer = 0 then ([], Break)
      else ([SendFrontend buffer], if ok then Continue else Break))"

text \<open>
  \<^verbatim>\<open>select\<close> reports which sockets are readable; the frontend side is served first and
  a \<^verbatim>\<open>break\<close> there skips the backend side.
\<close>

definition relay_pass ::
  "(string \<times> bool) option \<Rightarrow> (string \<times> bool) option \<Rightarrow> proxy_action list \<times> loop_ctl" where
  "relay_pass client backend =
     (let (a1, c1) = (case client of None \<Rightarrow> ([], Continue)
                      | Some (buf, ok) \<Rightarrow> from_frontend buf ok)
      in if c1 = Break then (a1, Break)
         else (let (a2, c2) = (case backend of None \<Rightarrow> ([], Continue)
                               | Some (buf, ok) \<Rightarrow> from_backend buf ok)
               in (a1 @ a2, c2)))"

section \<open>Sandbox validator (\<^verbatim>\<open>awesh_sandbox.c\<close>)\<close>

subsection \<open>The PTY master\<close>

text \<open>
  \<^verbatim>\<open>execute_command_in_sandbox\<close> talks to the long-lived shell through the PTY master:
  it calls \<^verbatim>\<open>select\<close> with a timeout and, when the master is readable, \<^verbatim>\<open>read\<close>.
  The shell's side is a function from the number of the \<^verbatim>\<open>select\<close> call to what
  that call and the read after it gave: no data within the timeout, a chunk of bytes, or
  a read that returned nothing.
\<close>

datatype pty_event = PtyTimeout | PtyData string | PtyEof

text \<open>
  Lines 312-327: the master is drained before the command is sent, for as long as
  \<^verbatim>\<open>select\<close> reports it readable. The loop has no bound of its own; a run that never
  leaves it is \<open>None\<close>.
\<close>

partial_function (option) clear_pty :: "(nat \<Rightarrow> pty_event) \<Rightarrow> nat \<Rightarrow> nat option" where
  "clear_pty pty k =
     (case pty k of
        PtyTimeout \<Rightarrow> Some (Suc k)
      | PtyData b \<Rightarrow> clear_pty pty (Suc k)
      | PtyEof \<Rightarrow> clear_pty pty (Suc k))"

declare clear_pty.simps [code]

text \<open>
  Lines 337-375: the prompt is asked for with one \<^verbatim>\<open>select\<close> and at most one
  \<^verbatim>\<open>read\<close>; the default \<^verbatim>\<open>"$ "\<close> is used when nothing was extracted.
\<close>

definition probe_ps1 :: "pty_event \<Rightarrow> string" where
  "probe_ps1 ev =
     (let ps1_prompt =
        (case ev of
           PtyData ps1_buffer \<Rightarrow>
             (case strstr (c_str ps1_buffer) ''PS1_PROMPT:'' of
                None \<Rightarrow> []
              | Some t \<Rightarrow>
                  (let ps1_start = drop 11 t
                   in if CHR 0x0A \<in> set ps1_start
                      then (let p = takeWhile (\<lambda>c. c \<noteq> CHR 0x0A) ps1_start
                            in if length p < 256 then p else [])
                      else []))
         | PtyTimeout \<Rightarrow> []
         | PtyEof \<Rightarrow> [])
      in if length ps1_prompt = 0 then ''$ '' else ps1_prompt)"

subsection \<open>The output-accumulation loop\<close>

text \<open>
  Lines 379-436. The state is the local variables of the loop: \<open>out\<close> is
  \<^verbatim>\<open>stdout_buf\<close> up to \<^verbatim>\<open>total_len\<close>. \<^verbatim>\<open>max_attempts\<close> is 50 and
  \<^verbatim>\<open>MAX_RESPONSE_LEN\<close> is 65536. The prompt is searched in the chunk just read, as a C
  string. \<open>attempts\<close> grows on a timeout and on a chunk that shows the prompt, as in
  the source. The result is the number of \<^verbatim>\<open>select\<close> calls made so far and the final
  state, or \<open>None\<close> when the loop never ends.
\<close>

record read_state =
  out :: string
  prompt_detected :: bool
  attempts :: nat
  consecutive_empty_reads :: nat

definition loop_start :: read_state where
  "loop_start =
     \<lparr>out = [], prompt_detected = False, attempts = 0, consecutive_empty_reads = 0\<rparr>"

partial_function (option) read_output ::
  "(nat \<Rightarrow> pty_event) \<Rightarrow> string \<Rightarrow> nat \<Rightarrow> read_state \<Rightarrow> (nat \<times> read_state) option" where
  "read_output pty ps1_prompt k st =
     (if attempts st < 50 then
        (case pty k of
           PtyData buffer \<Rightarrow>
             (let st1 = st\<lparr>out := (if length (out st) + length buffer < 65535
                                     then out st @ buffer else out st),
                            consecutive_empty_reads := 0\<rparr>
              in if contains (c_str buffer) ps1_prompt
                 then read_output pty ps1_prompt (Suc k)
                        (st1\<lparr>prompt_detected := True, attempts := attempts st1 + 1\<rparr>)
                 else read_output pty ps1_prompt (Suc k) st1)
         | PtyEof \<Rightarrow>
             (let st1 = st\<lparr>consecutive_empty_reads := consecutive_empty_reads st + 1\<rparr>
              in if consecutive_empty_reads st1 \<ge> 10 then Some (Suc k, st1)
                 else read_output pty ps1_prompt (Suc k) st1)
         | PtyTimeout \<Rightarrow>
             (if length (out st) > 0 \<and> prompt_detected st then Some (Suc k, st)
              else read_output pty ps1_prompt (Suc k) (st\<lparr>attempts := attempts st + 1\<rparr>)))
      else Some (k, st))"

declare read_output.simps [code]

subsection \<open>Filtering the captured output\<close>

text \<open>
  Lines 441-490: the output, read as a C string, is cut into lines at \<^verbatim>\<open>\n\<close>. A line
  is kept when it is shorter than 256 bytes, is not the command, does not start with the
  command, holds none of the prompt marks and is not empty. The kept lines are moved
  together without their newlines.
\<close>

function filter_lines :: "string \<Rightarrow> string \<Rightarrow> string" where
  "filter_lines cmd s =
     (if s = [] then []
      else
        (let current_line = takeWhile (\<lambda>c. c \<noteq> CHR 0x0A) s;
             line_end = dropWhile (\<lambda>c. c \<noteq> CHR 0x0A) s;
             keep = (length current_line < 256
                     \<and> current_line \<noteq> cmd
                     \<and> \<not> prefix cmd current_line
                     \<and> \<not> contains current_line ''$ ''
                     \<and> \<not> contains current_line ''# ''
                     \<and> \<not> contains current_line ''> ''
                     \<and> length current_line > 0)
         in (if keep then current_line else [])
            @ filter_lines cmd
                (case line_end of [] \<Rightarrow> [] | c # r \<Rightarrow> if c = CHR 0x0A then r else c # r)))"
  by pat_completeness auto
termination
proof (relation "measure (\<lambda>(cmd, s). length s)")
  show "wf (measure (\<lambda>(cmd, s). length s))" by simp
next
  fix cmd s :: string and x xa xb
  assume ne: "s \<noteq> []" and xa: "xa = dropWhile (\<lambda>c. c \<noteq> CHR 0x0A) s"
  have le: "length xa \<le> length s"
    unfolding xa by (rule length_dropWhile_le)
  have hd: "xa \<noteq> [] \<Longrightarrow> hd xa = CHR 0x0A"
    unfolding xa using hd_dropWhile [of "\<lambda>c. c \<noteq> CHR 0x0A" s] by simp
  show "((cmd, case xa of [] \<Rightarrow> [] | c # r \<Rightarrow> if c = CHR 0x0A then r else c # r), cmd, s)
          \<in> measure (\<lambda>(cmd, s). length s)"
  proof (cases xa)
    case Nil
    with ne show ?thesis by simp
  next
    case (Cons c r)
    with hd le show ?thesis by auto
  qed
qed

declare filter_lines.simps [simp del]

text \<open>Lines 492-511: an escape sequence runs from ESC to the next of \<^verbatim>\<open>m l h J K H\<close>.\<close>

fun strip_escapes :: "bool \<Rightarrow> string \<Rightarrow> string" where
  "strip_escapes in_escape [] = []"
| "strip_escapes in_escape (c # cs) =
     (if c = CHR 0x1B then strip_escapes True cs
      else if in_escape then
        (if c \<in> set ''mlhJKH'' then strip_escapes False cs else strip_escapes True cs)
      else c # strip_escapes False cs)"

subsection \<open>Classification\<close>

text \<open>
  Lines 557-566: the words of the command are counted with \<^verbatim>\<open>strtok\<close> on space and
  tab, in a copy of at most 1023 bytes, and the count stops at 10.
\<close>

fun count_tokens :: "bool \<Rightarrow> string \<Rightarrow> nat" where
  "count_tokens in_word [] = 0"
| "count_tokens in_word (c # cs) =
     (if c = CHR '' '' \<or> c = CHR 0x09 then count_tokens False cs
      else (if in_word then 0 else 1) + count_tokens True cs)"

definition word_count :: "string \<Rightarrow> nat" where
  "word_count cmd = min 10 (count_tokens False (take 1023 cmd))"

definition has_error_indicator :: "string \<Rightarrow> bool" where
  "has_error_indicator stdout_buf =
     (contains stdout_buf ''command not found''
      \<or> contains stdout_buf ''Permission denied''
      \<or> contains stdout_buf ''No such file or directory''
      \<or> contains stdout_buf ''bash:''
      \<or> contains stdout_buf ''sh:''
      \<or> contains stdout_buf ''error:''
      \<or> contains stdout_buf ''Error:'')"

text \<open>
  Lines 583-603: the line that holds the first \<^verbatim>\<open>EXIT_CODE:\<close> is removed, from the
  start of that line up to and including its newline.
\<close>

definition remove_exit_code_line :: "string \<Rightarrow> string \<Rightarrow> string" where
  "remove_exit_code_line stdout_buf exit_code_line =
     (let leading = take (length stdout_buf - length exit_code_line) stdout_buf;
          kept = rev (dropWhile (\<lambda>c. c \<noteq> CHR 0x0A) (rev leading));
          line_end = (case dropWhile (\<lambda>c. c \<noteq> CHR 0x0A) exit_code_line of
                        [] \<Rightarrow> [] | c # r \<Rightarrow> r)
      in kept @ line_end)"

text \<open>
  What \<^verbatim>\<open>execute_command_in_sandbox\<close> hands back: its return value, \<^verbatim>\<open>*exit_code\<close>,
  the two output buffers as C strings, the writes it made on the master and the number
  of \<^verbatim>\<open>select\<close> calls it made.
\<close>

record exec_result =
  res_ret :: int
  res_exit_code :: int
  res_stdout :: string
  res_stderr :: string
  res_writes :: "string list"
  res_pos :: nat

definition full_cmd :: "string \<Rightarrow> string" where
  "full_cmd cmd =
     take 1073 (''bash -c '' @ [CHR 0x27] @ cmd @ [CHR 0x27] @ ''; echo ''
                @ [CHR 0x22] @ ''EXIT_CODE:$?'' @ [CHR 0x22, CHR 0x0A])"

definition ctrl_c :: string where
  "ctrl_c = [CHR 0x03]"

definition ps1_query :: string where
  "ps1_query = ''echo '' @ [CHR 0x22] @ ''PS1_PROMPT:$PS1'' @ [CHR 0x22, CHR 0x0A]"

text \<open>The captured output after both filters, as the classification reads it.\<close>

definition cleaned_output :: "string \<Rightarrow> read_state \<Rightarrow> string" where
  "cleaned_output cmd st = strip_escapes False (filter_lines cmd (c_str (out st)))"

text \<open>
  Lines 521-608, after the loop. Without a prompt the session gets a Ctrl-C, one more
  \<^verbatim>\<open>select\<close> (and \<^verbatim>\<open>read\<close>) drains it, and the verdict is \<open>-103\<close>. Otherwise an
  error indicator in the cleaned output gives \<open>-113\<close> or \<open>-109\<close> by the word count,
  and after that the echoed exit code is the verdict.
\<close>

definition classify :: "string \<Rightarrow> string list \<Rightarrow> nat \<Rightarrow> read_state \<Rightarrow> exec_result" where
  "classify cmd writes k st =
     (let cleaned = cleaned_output cmd st
      in if \<not> prompt_detected st then
           \<lparr>res_ret = 0, res_exit_code = - 103, res_stdout = ''INTERACTIVE_COMMAND'', res_stderr = [],
            res_writes = writes @ [ctrl_c], res_pos = Suc k\<rparr>
         else if has_error_indicator cleaned then
           \<lparr>res_ret = 0, res_exit_code = (if word_count cmd \<ge> 3 then - 113 else - 109),
            res_stdout = cleaned, res_stderr = [], res_writes = writes, res_pos = k\<rparr>
         else
           (case strstr cleaned ''EXIT_CODE:'' of
              Some exit_code_line \<Rightarrow>
                \<lparr>res_ret = 0, res_exit_code = atoi (drop 10 exit_code_line),
                 res_stdout = remove_exit_code_line cleaned exit_code_line, res_stderr = [],
                 res_writes = writes, res_pos = k\<rparr>
            | None \<Rightarrow>
                \<lparr>res_ret = 0, res_exit_code = 0, res_stdout = cleaned, res_stderr = [],
                 res_writes = writes, res_pos = k\<rparr>))"

text \<open>
  The whole function. \<open>ready\<close> is \<^verbatim>\<open>bash_sandbox.bash_ready\<close>; \<open>write_ok\<close> says
  whether sending the command line succeeded. Where the function returns \<open>-1\<close> the
  caller does not read the other fields.
\<close>

definition execute_command_in_sandbox ::
  "bool \<Rightarrow> (nat \<Rightarrow> pty_event) \<Rightarrow> bool \<Rightarrow> string \<Rightarrow> exec_result option" where
  "execute_command_in_sandbox ready pty write_ok cmd =
     (if \<not> ready then
        Some \<lparr>res_ret = - 1, res_exit_code = 0, res_stdout = [], res_stderr = [],
              res_writes = [], res_pos = 0\<rparr>
      else
        (case clear_pty pty 0 of
           None \<Rightarrow> None
         | Some k1 \<Rightarrow>
             if \<not> write_ok then
               Some \<lparr>res_ret = - 1, res_exit_code = 0, res_stdout = [], res_stderr = [],
                     res_writes = [], res_pos = k1\<rparr>
             else
               (case read_output pty (probe_ps1 (pty k1)) (Suc k1) loop_start of
                  None \<Rightarrow> None
                | Some (k2, st) \<Rightarrow> Some (classify cmd [full_cmd cmd, ps1_query] k2 st))))"

subsection \<open>The verdict record: \<^verbatim>\<open>write_result_to_mmap\<close>\<close>

text \<open>
  Lines 86-148. The region is cleared and the record is printed into it piece by piece,
  \<open>remaining\<close> counting the room left. A header that does not fit is skipped, a
  payload that does not fit is left out while its newline is still written. Both
  payloads are measured with \<^verbatim>\<open>strlen\<close>. The result is the C string that starts the
  region afterwards. The source writes the two payloads with the same code, here
  \<open>write_payload\<close>.
\<close>

definition write_payload :: "string \<Rightarrow> string \<Rightarrow> string \<times> int \<Rightarrow> string \<times> int" where
  "write_payload name str tr =
     (let (text, remaining) = tr;
          header = name @ ''_LEN:'' @ show_nat (length str) @ [CHR 0x0A] @ name @ '':'';
          written = int (length header)
      in if written > 0 \<and> written < remaining then
           (let (t1, r1) = (text @ header, remaining - written);
                (t2, r2) = (if length str > 0 \<and> int (length str) < r1
                            then (t1 @ str, r1 - int (length str)) else (t1, r1))
            in if r2 > 0 then (t2 @ [CHR 0x0A], r2 - 1) else (t2, r2))
         else (text, remaining))"

definition write_exit_code :: "int \<Rightarrow> string \<times> int \<Rightarrow> string \<times> int" where
  "write_exit_code exit_code tr =
     (let (text, remaining) = tr;
          line = ''EXIT_CODE:'' @ show_int exit_code @ [CHR 0x0A];
          written = int (length line)
      in if written > 0 \<and> written < remaining then (text @ line, remaining - written)
         else (text, remaining))"

definition MMAP_SIZE :: int where
  "MMAP_SIZE = 1024 * 1024"

definition write_result_to_mmap :: "int \<Rightarrow> string \<Rightarrow> string \<Rightarrow> string" where
  "write_result_to_mmap exit_code stdout_content stderr_content =
     fst (write_payload ''STDERR'' (c_str stderr_content)
            (write_payload ''STDOUT'' (c_str stdout_content)
               (write_exit_code exit_code ([], MMAP_SIZE - 1))))"

text \<open>
  The layout of the verdict record as the specification writes it: the exit code line,
  then each payload behind its length and its tag, each followed by a newline. It is
  compared below with what \<^verbatim>\<open>write_result_to_mmap\<close> leaves in the region.
\<close>

definition spec_verdict_record :: "int \<Rightarrow> string \<Rightarrow> string \<Rightarrow> string" where
  "spec_verdict_record code so se =
     ''EXIT_CODE:'' @ show_int code @ [CHR 0x0A]
     @ ''STDOUT_LEN:'' @ show_nat (length so) @ [CHR 0x0A] @ ''STDOUT:'' @ so @ [CHR 0x0A]
     @ ''STDERR_LEN:'' @ show_nat (length se) @ [CHR 0x0A] @ ''STDERR:'' @ se @ [CHR 0x0A]"

subsection \<open>\<^verbatim>\<open>handle_client_request\<close>\<close>

text \<open>
  The server's state is the shell session flag, whether the region is mapped
  (\<^verbatim>\<open>write_result_to_mmap\<close> returns at once when it is not; \<^verbatim>\<open>main\<close> only serves
  requests after \<^verbatim>\<open>setup_mmap_file\<close> succeeded) and the text in the region. A request
  leaves a trace of what the server did, in order: writes on the PTY master, a write of
  the region, a \<^verbatim>\<open>send\<close> on the client's socket. \<open>received\<close> is what the client
  sent, empty when \<^verbatim>\<open>recv\<close> returned zero or an error; at most 1023 bytes are taken.
  \<open>None\<close> is a request whose handling never returns.
\<close>

record sandbox_server =
  bash_ready :: bool
  mmap_mapped :: bool
  mmap_text :: string

datatype server_event = PtyWrite string | MmapWrite string | SockSend string

definition publish ::
  "sandbox_server \<Rightarrow> int \<Rightarrow> string \<Rightarrow> string \<Rightarrow> server_event list \<times> sandbox_server" where
  "publish srv exit_code stdout_content stderr_content =
     (if mmap_mapped srv then
        (let text = write_result_to_mmap exit_code stdout_content stderr_content
         in ([MmapWrite text], srv\<lparr>mmap_text := text\<rparr>))
      else ([], srv))"

definition handle_client_request ::
  "sandbox_server \<Rightarrow> (nat \<Rightarrow> pty_event) \<Rightarrow> bool \<Rightarrow> string
     \<Rightarrow> (server_event list \<times> sandbox_server) option" where
  "handle_client_request srv pty write_ok received =
     (let bytes = take 1023 received
      in if length bytes = 0 then Some ([], srv)
         else
           (case execute_command_in_sandbox (bash_ready srv) pty write_ok (c_str bytes) of
              None \<Rightarrow> None
            | Some r \<Rightarrow>
                if res_ret r = 0 then
                  (let (w, srv1) = publish srv (res_exit_code r) (res_stdout r) (res_stderr r)
                   in Some (map PtyWrite (res_writes r) @ w @ [SockSend ''OK''], srv1))
                else
                  (let (w, srv1) = publish srv (- 1) [] ''Sandbox execution failed''
                   in Some (map PtyWrite (res_writes r) @ w @ [SockSend ''ERROR''], srv1))))"

text \<open>A PTY that plays a finite list of events and is silent afterwards.\<close>

definition script :: "pty_event list \<Rightarrow> nat \<Rightarrow> pty_event" where
  "script evs k = (if k < length evs then evs ! k else PtyTimeout)"

section \<open>Frontend (\<^verbatim>\<open>awesh.c\<close>)\<close>

subsection \<open>Reading the verdict: \<^verbatim>\<open>send_to_sandbox\<close> and \<^verbatim>\<open>test_command_in_sandbox\<close>\<close>

text \<open>
  \<^verbatim>\<open>send_to_sandbox\<close> connects, sends the command, waits up to five seconds for the
  acknowledgment, maps the region and copies it with \<^verbatim>\<open>strncpy\<close> into a buffer of
  4096 bytes. \<open>ipc_ok\<close> says that every system call on that path succeeded and the
  acknowledgment arrived in time; \<open>region\<close> is the content of the region then.
\<close>

definition send_to_sandbox :: "bool \<Rightarrow> string \<Rightarrow> string option" where
  "send_to_sandbox ipc_ok region = (if ipc_ok then Some (take 4095 (c_str region)) else None)"

text \<open>
  Lines 1801-1820 of \<^verbatim>\<open>test_command_in_sandbox\<close>: the exit code follows the first
  \<^verbatim>\<open>EXIT_CODE:\<close> of the response; the error text is found through the first
  \<^verbatim>\<open>STDERR_LEN:\<close> and the first \<^verbatim>\<open>STDERR:\<close> after it. The standard-output
  payload is not extracted.
\<close>

definition parse_exit_code :: "string \<Rightarrow> int" where
  "parse_exit_code response =
     (case strstr response ''EXIT_CODE:'' of
        Some exit_line \<Rightarrow> atoi (drop 10 exit_line) | None \<Rightarrow> 0)"

definition parse_stderr :: "string \<Rightarrow> string" where
  "parse_stderr response =
     (case strstr response ''STDERR_LEN:'' of
        None \<Rightarrow> []
      | Some stderr_len_line \<Rightarrow>
          (let stderr_len = atoi (drop 11 stderr_len_line)
           in case strstr stderr_len_line ''STDERR:'' of
                None \<Rightarrow> []
              | Some stderr_start \<Rightarrow>
                  if stderr_len > 0 \<and> stderr_len < 4096
                  then take (nat stderr_len) (drop 7 stderr_start) else []))"

text \<open>
  The result: \<open>0\<close> valid, \<open>-103\<close> interactive, \<open>-113\<close> route to AI, \<open>-109\<close>
  command not found, \<open>-2\<close> other failure, \<open>-1\<close> no answer from the sandbox.
\<close>

definition test_command_in_sandbox :: "bool \<Rightarrow> bool \<Rightarrow> string \<Rightarrow> int" where
  "test_command_in_sandbox sandbox_running ipc_ok region =
     (if \<not> sandbox_running then - 1
      else
        (case send_to_sandbox ipc_ok region of
           None \<Rightarrow> - 1
         | Some response \<Rightarrow>
             if contains response ''INTERACTIVE_COMMAND'' then - 103
             else
               (let exit_code = parse_exit_code response;
                    stderr_content = parse_stderr response
                in if exit_code = - 103 \<or> exit_code = - 113 \<or> exit_code = - 109 then exit_code
                   else if exit_code = 0 \<and> length stderr_content = 0 then 0
                   else - 2)))"

subsection \<open>\<^verbatim>\<open>is_ai_query\<close>\<close>

definition ai_indicators :: "string list" where
  "ai_indicators =
     [''write'', ''create'', ''generate'', ''explain'', ''analyze'', ''summarize'',
      ''what'', ''how'', ''why'', ''when'', ''where'', ''who'', ''which'',
      ''help'', ''assist'', ''suggest'', ''recommend'', ''find'', ''search'',
      ''poem'', ''story'', ''code'', ''script'', ''function'', ''class'',
      ''error'', ''bug'', ''issue'', ''problem'', ''fix'', ''solution'']"

definition shell_commands :: "string list" where
  "shell_commands =
     [''ls'', ''cd'', ''pwd'', ''cat'', ''grep'', ''find'', ''ps'', ''top'', ''kill'',
      ''mkdir'', ''rmdir'', ''rm'', ''cp'', ''mv'', ''chmod'', ''chown'', ''sudo'',
      ''git'', ''docker'', ''kubectl'', ''ssh'', ''scp'', ''rsync'', ''tar'', ''gzip'',
      ''vim'', ''nano'', ''emacs'', ''less'', ''more'', ''head'', ''tail'', ''sort'',
      ''awk'', ''sed'', ''cut'', ''uniq'', ''wc'', ''diff'', ''patch'', ''make'']"

text \<open>
  \<^verbatim>\<open>sscanf(cmd, "%255s", first_word)\<close>: leading white space is skipped, then up to 255
  bytes that are not white space are stored. When there is no such byte nothing is
  stored (\<open>None\<close>) and the source compares an uninitialised buffer; the function
  returns 0 whatever that comparison gives.
\<close>

definition scan_word :: "string \<Rightarrow> string option" where
  "scan_word cmd =
     (let s = dropWhile isspace cmd
      in if s = [] then None else Some (take 255 (takeWhile (\<lambda>c. \<not> isspace c) s)))"

text \<open>
  Lines 1945-2003, in the source's order: the indicator words on the lower-cased copy
  (at most 1023 bytes), the question mark, the shell characters, the known shell
  commands, the default.
\<close>

definition is_ai_query :: "string \<Rightarrow> bool" where
  "is_ai_query cmd =
     (let lower_cmd = map tolower (take 1023 cmd)
      in if list_ex (\<lambda>w. contains lower_cmd w) ai_indicators then True
         else if has_char cmd (CHR ''?'') then True
         else if has_char cmd (CHR ''|'') \<or> has_char cmd (CHR ''>'') \<or> has_char cmd (CHR ''<'')
                 \<or> has_char cmd (CHR ''&'') \<or> has_char cmd (CHR '';'') \<or> has_char cmd (CHR 0x60)
           then False
         else
           (case scan_word cmd of
              Some first_word \<Rightarrow> if first_word \<in> set shell_commands then False else False
            | None \<Rightarrow> False))"

subsection \<open>The dispatcher: \<^verbatim>\<open>execute_command_securely\<close>\<close>

text \<open>
  What the dispatcher does for one command is the list of its visible actions: running
  a command with \<^verbatim>\<open>system\<close>, handing it to the backend, terminal mode changes, and
  the messages printed at verbosity 1. The diagnostic lines of verbosity 2 and the
  \<^verbatim>\<open>DEBUG\<close> line are left out. \<open>result\<close> is what \<^verbatim>\<open>system(cmd)\<close> returns for the
  direct run, \<open>sandbox_result\<close> what \<^verbatim>\<open>test_command_in_sandbox(cmd)\<close> returns,
  \<open>interactive_result\<close> what \<^verbatim>\<open>system(cmd)\<close> returns inside
  \<^verbatim>\<open>run_interactive_command\<close>.
\<close>

definition wexitstatus :: "int \<Rightarrow> int" where
  "wexitstatus status = (status div 256) mod 256"

datatype frontend_action =
    System string
  | SendToBackendDirectly string
  | RlDeprepTerminal
  | Tcsetattr
  | RlPrepTerminal
  | PrintThinking
  | PrintNoChildren
  | PrintCommandFailed int
  | PrintCommandExited int
  | PrintNotFound
  | PrintNoBackend

text \<open>
  \<^verbatim>\<open>run_interactive_command\<close>: the line editor releases the terminal, the saved
  terminal settings are put back, the command runs with \<^verbatim>\<open>system\<close> on the frontend's
  own terminal, and the line editor takes the terminal again.
\<close>

definition run_interactive_command :: "int \<Rightarrow> int \<Rightarrow> string \<Rightarrow> frontend_action list" where
  "run_interactive_command verbose result cmd =
     [RlDeprepTerminal, Tcsetattr, System cmd, RlPrepTerminal]
     @ (if result \<noteq> 0 \<and> verbose \<ge> 1 then [PrintCommandExited (wexitstatus result)] else [])"

text \<open>The two places that hand the command to the backend share this code.\<close>

definition route_to_ai :: "bool \<Rightarrow> string \<Rightarrow> frontend_action list" where
  "route_to_ai backend_ready cmd =
     (if backend_ready then [PrintThinking, SendToBackendDirectly cmd] else [PrintNoBackend])"

definition execute_command_securely ::
  "bool \<Rightarrow> bool \<Rightarrow> int \<Rightarrow> int \<Rightarrow> int \<Rightarrow> int \<Rightarrow> string \<Rightarrow> frontend_action list" where
  "execute_command_securely backend_ready sandbox_ready verbose result sandbox_result
       interactive_result cmd =
     (if \<not> backend_ready \<and> \<not> sandbox_ready then
        (if verbose \<ge> 1 then [PrintNoChildren] else [])
        @ [System cmd]
        @ (if result \<noteq> 0 \<and> verbose \<ge> 1 then [PrintCommandFailed result] else [])
      else if is_ai_query cmd \<and> backend_ready then [PrintThinking, SendToBackendDirectly cmd]
      else if result = 0 then [System cmd]
      else
        System cmd #
        (let exit_code = wexitstatus result
         in if sandbox_result = 0 then
              (if verbose \<ge> 1 then [PrintCommandFailed exit_code] else [])
            else if sandbox_result = - 113 then route_to_ai backend_ready cmd
            else if sandbox_result = - 103 then
              run_interactive_command verbose interactive_result cmd
            else if sandbox_result = - 109 then (if verbose \<ge> 1 then [PrintNotFound] else [])
            else route_to_ai backend_ready cmd))"

section \<open>Facts about C strings and numbers\<close>

subsection \<open>Printing and reading decimal numbers\<close>

lemma digit_val_digit_char: "d < 10 \<Longrightarrow> digit_val (digit_char d) = Some (int d)"
proof -
  assume "d < 10"
  then have "d \<in> {0, 1, 2, 3, 4, 5, 6, 7, 8, 9}" by auto
  then show ?thesis by (auto simp: digit_val_def digit_char_def)
qed

lemma digit_char_in: "d < 10 \<Longrightarrow> digit_char d \<in> set ''0123456789''"
  unfolding digit_char_def by (rule nth_mem) simp

lemma show_nat_digits: "set (show_nat n) \<subseteq> set ''0123456789''"
proof (induction n rule: show_nat.induct)
  case (1 n)
  show ?case
  proof (cases "n < 10")
    case True
    then show ?thesis
      using digit_char_in [of n] by (subst show_nat.simps) simp
  next
    case False
    then have "set (show_nat (n div 10)) \<subseteq> set ''0123456789''" using 1 by simp
    moreover have "digit_char (n mod 10) \<in> set ''0123456789''"
      by (rule digit_char_in) simp
    ultimately show ?thesis
      using False by (subst show_nat.simps) simp
  qed
qed

lemma show_nat_ne: "show_nat n \<noteq> []"
  by (subst show_nat.simps) simp

lemma show_nat_length: "0 < k \<Longrightarrow> n < 10 ^ k \<Longrightarrow> length (show_nat n) \<le> k"
proof (induction k arbitrary: n)
  case 0
  then show ?case by simp
next
  case (Suc k)
  show ?case
  proof (cases "n < 10")
    case True
    then show ?thesis by (subst show_nat.simps) simp
  next
    case False
    then have k: "0 < k" using Suc.prems by (cases k) auto
    have "n div 10 < 10 ^ k" using Suc.prems(2) by (simp add: less_mult_imp_div_less mult.commute)
    then have "length (show_nat (n div 10)) \<le> k" using Suc.IH k by simp
    then show ?thesis using False by (subst show_nat.simps) simp
  qed
qed

lemma digits_val_show_nat:
  "digits_val acc (show_nat n @ rest)
   = digits_val (acc * 10 ^ length (show_nat n) + int n) rest"
proof (induction n arbitrary: acc rest rule: show_nat.induct)
  case (1 n)
  show ?case
  proof (cases "n < 10")
    case True
    then show ?thesis
      by (subst (1 2) show_nat.simps) (simp add: digit_val_digit_char)
  next
    case False
    have m: "n mod 10 < 10" by simp
    have "digits_val acc (show_nat n @ rest)
          = digits_val acc (show_nat (n div 10) @ digit_char (n mod 10) # rest)"
      using False by (subst show_nat.simps) simp
    also have "\<dots> = digits_val (acc * 10 ^ length (show_nat (n div 10)) + int (n div 10))
                        (digit_char (n mod 10) # rest)"
      using 1 False by simp
    also have "\<dots> = digits_val ((acc * 10 ^ length (show_nat (n div 10)) + int (n div 10)) * 10
                                 + int (n mod 10)) rest"
      by (simp add: digit_val_digit_char [OF m])
    also have "(acc * 10 ^ length (show_nat (n div 10)) + int (n div 10)) * 10 + int (n mod 10)
               = acc * 10 ^ length (show_nat n) + int n"
    proof -
      have "length (show_nat n) = Suc (length (show_nat (n div 10)))"
        using False by (subst show_nat.simps) simp
      moreover have "int (n div 10) * 10 + int (n mod 10) = int n"
        by (metis div_mult_mod_eq of_nat_add of_nat_mult of_nat_numeral)
      ultimately show ?thesis by (simp add: algebra_simps)
    qed
    finally show ?thesis .
  qed
qed

lemma digits_val_stop:
  "rest = [] \<or> digit_val (hd rest) = None \<Longrightarrow> digits_val acc rest = acc"
  by (cases rest) auto

lemma digits_val_show_nat_0:
  "rest = [] \<or> digit_val (hd rest) = None \<Longrightarrow> digits_val 0 (show_nat n @ rest) = int n"
  by (simp add: digits_val_show_nat digits_val_stop)

lemma show_nat_hd:
  obtains c cs where "show_nat n = c # cs" and "c \<in> set ''0123456789''"
proof -
  obtain c cs where s: "show_nat n = c # cs" using show_nat_ne by (cases "show_nat n") auto
  then have "c \<in> set (show_nat n)" by simp
  then have "c \<in> set ''0123456789''" using show_nat_digits by blast
  with s that show ?thesis by blast
qed

lemma strtol_show_int:
  assumes "rest = [] \<or> digit_val (hd rest) = None" and "- (2 ^ 63) \<le> e" and "e < 2 ^ 63"
  shows "strtol (show_int e @ rest) = e"
proof (cases "e < 0")
  case True
  have "\<not> isspace (CHR ''-'')" by (simp add: isspace_def)
  then have "strtol (show_int e @ rest) =
     max (- (2 ^ 63)) (min (2 ^ 63 - 1) (- digits_val 0 (show_nat (nat (- e)) @ rest)))"
    using True by (simp add: strtol_def show_int_def)
  also have "digits_val 0 (show_nat (nat (- e)) @ rest) = int (nat (- e))"
    using assms(1) by (rule digits_val_show_nat_0)
  finally show ?thesis using True assms by simp
next
  case False
  obtain c cs where s: "show_nat (nat e) = c # cs" and c: "c \<in> set ''0123456789''"
    by (rule show_nat_hd)
  from c have ns: "\<not> isspace c" and nm: "c \<noteq> CHR ''-''" and np: "c \<noteq> CHR ''+''"
    by (auto simp: isspace_def)
  have "strtol (show_int e @ rest) =
     max (- (2 ^ 63)) (min (2 ^ 63 - 1) (digits_val 0 (show_nat (nat e) @ rest)))"
    using False ns nm np s by (simp add: strtol_def show_int_def)
  also have "digits_val 0 (show_nat (nat e) @ rest) = int (nat e)"
    using assms(1) by (rule digits_val_show_nat_0)
  finally show ?thesis using False assms by simp
qed

lemma to_int32_id: "- (2 ^ 31) \<le> v \<Longrightarrow> v < 2 ^ 31 \<Longrightarrow> to_int32 v = v"
  by (simp add: to_int32_def)

lemma to_int32_range: "- (2 ^ 31) \<le> to_int32 v \<and> to_int32 v < 2 ^ 31"
  unfolding to_int32_def
  using pos_mod_sign [of "2 ^ 32" "v + 2 ^ 31"] pos_mod_bound [of "2 ^ 32" "v + 2 ^ 31"]
  by simp

lemma atoi_show_int:
  assumes "rest = [] \<or> digit_val (hd rest) = None" and "- (2 ^ 31) \<le> e" and "e < 2 ^ 31"
  shows "atoi (show_int e @ rest) = e"
proof -
  have "strtol (show_int e @ rest) = e"
    using assms by (intro strtol_show_int) auto
  then show ?thesis using assms by (simp add: atoi_def to_int32_id)
qed

lemma show_int_nat: "show_int (int n) = show_nat n"
  by (simp add: show_int_def)

lemma show_nat_char: "c \<in> set (show_nat n) \<Longrightarrow> c \<in> set ''0123456789''"
  using show_nat_digits by blast

lemma show_int_char:
  assumes "c \<in> set (show_int e)"
  shows "c = CHR ''-'' \<or> c \<in> set ''0123456789''"
proof (cases "e < 0")
  case True
  with assms have "c = CHR ''-'' \<or> c \<in> set (show_nat (nat (- e)))"
    by (simp add: show_int_def)
  then show ?thesis using show_nat_char by blast
next
  case False
  with assms have "c \<in> set (show_nat (nat e))"
    by (simp add: show_int_def)
  then show ?thesis using show_nat_char by blast
qed

lemma show_int_length:
  assumes "- (2 ^ 31) \<le> e" and "e < 2 ^ 31"
  shows "length (show_int e) \<le> 11"
proof -
  have a: "nat e < 10 ^ 10" using assms(2) by simp
  have b: "nat (- e) < 10 ^ 10" using assms(1) by simp
  have "length (show_nat (nat e)) \<le> 10"
    by (rule show_nat_length [OF _ a]) simp
  moreover have "length (show_nat (nat (- e))) \<le> 10"
    by (rule show_nat_length [OF _ b]) simp
  ultimately show ?thesis by (simp add: show_int_def)
qed

lemma atoi_range: "- (2 ^ 31) \<le> atoi s \<and> atoi s < 2 ^ 31"
  unfolding atoi_def by (rule to_int32_range)

subsection \<open>C strings and searching\<close>

lemma c_str_id: "CHR 0x00 \<notin> set s \<Longrightarrow> c_str s = s"
  by (auto simp: c_str_def takeWhile_eq_all_conv)

lemma c_str_no_nul: "CHR 0x00 \<notin> set (c_str s)"
  unfolding c_str_def using set_takeWhileD by fastforce

lemma show_nat_not: "c \<notin> set ''0123456789'' \<Longrightarrow> c \<notin> set (show_nat n)"
  using show_nat_char by blast

lemma show_int_not:
  "c \<noteq> CHR ''-'' \<Longrightarrow> c \<notin> set ''0123456789'' \<Longrightarrow> c \<notin> set (show_int e)"
  using show_int_char by blast

lemma c_str_append_clean: "CHR 0x00 \<notin> set a \<Longrightarrow> c_str (a @ b) = a @ c_str b"
  by (induction a) (auto simp: c_str_def)

lemma take_head: "length a \<le> n \<Longrightarrow> take n (a @ b) = a @ take (n - length a) b"
  by simp

lemma strstr_skip_chars:
  "n \<noteq> [] \<Longrightarrow> hd n \<notin> set a \<Longrightarrow> strstr (a @ b) n = strstr b n"
  by (induction a) (auto simp: prefix_def neq_Nil_conv)

lemma prefix_in_front:
  assumes "prefix n (a @ c # b)" and "c \<notin> set n"
  shows "prefix n a"
proof -
  from assms(1) consider "prefix n a" | us where "n = a @ us" "prefix us (c # b)"
    by (auto simp: prefix_append)
  then show ?thesis
  proof cases
    case 1
    then show ?thesis .
  next
    case 2
    with assms(2) have "us = []" by (cases us) auto
    with 2 show ?thesis by simp
  qed
qed

lemma strstr_skip_free:
  assumes "strstr a n = None" and "c \<notin> set n" and "n \<noteq> []"
  shows "strstr (a @ c # b) n = strstr (c # b) n"
  using assms(1)
proof (induction a)
  case Nil
  show ?case by simp
next
  case (Cons x a)
  from Cons.prems have np: "\<not> prefix n (x # a)" and r: "strstr a n = None"
    by (auto split: if_splits)
  have "\<not> prefix n ((x # a) @ c # b)"
    using np prefix_in_front [OF _ assms(2)] by blast
  then show ?case using Cons.IH [OF r] by simp
qed

lemma S_not_in_show_int: "CHR ''S'' \<notin> set (show_int e)"
  by (rule show_int_not) simp_all

lemma S_not_in_show_nat: "CHR ''S'' \<notin> set (show_nat n)"
  by (rule show_nat_not) simp

section \<open>Properties of the security proxy\<close>

lemma c_str_prefix: "prefix (c_str buf) buf"
  unfolding c_str_def by (induction buf) auto

lemma prefix_c_str_D: "prefix p (c_str buf) \<Longrightarrow> prefix p buf"
  using c_str_prefix prefix_order.trans by blast

lemma dangerous_nonempty: "p \<in> set dangerous_patterns \<Longrightarrow> \<not> regexec p []"
  unfolding dangerous_patterns_def ws_plus_def by auto

lemma c_str_keeps_prefix:
  assumes "prefix p buf" and "CHR 0x00 \<notin> set p"
  shows "prefix p (c_str buf)"
proof -
  from assms(1) obtain r where "buf = p @ r" by (auto simp: prefix_def)
  moreover have "takeWhile (\<lambda>c. c \<noteq> CHR 0x00) (p @ r) = p @ takeWhile (\<lambda>c. c \<noteq> CHR 0x00) r"
    using assms(2) by (intro takeWhile_append2) auto
  ultimately show ?thesis by (simp add: c_str_def)
qed

text \<open>
  A payload that, read as a C string, begins with none of the system prefixes and
  matches one of the dangerous patterns is not forwarded: the only \<^verbatim>\<open>send\<close> of that
  pass is the fixed refusal, on the frontend's socket, and the relay goes on. For a
  payload without a NUL byte the C string is the whole payload.
\<close>

lemma dangerous_payload_blocked:
  assumes "\<not> prefix ''CWD:'' payload" and "\<not> prefix ''STATUS'' payload"
    and "\<not> prefix ''BASH_FAILED:'' payload"
    and "\<exists>p \<in> set dangerous_patterns. regexec p (c_str payload)"
  shows "from_frontend payload ok = ([SendFrontend error_msg], Continue)"
proof -
  have "\<not> is_system_command (c_str payload)"
    using assms(1-3) prefix_c_str_D [of _ payload] c_str_prefix [of payload]
    unfolding is_system_command_def by metis
  moreover have "list_ex (\<lambda>p. regexec p (c_str payload)) dangerous_patterns"
    using assms(4) by (simp add: list_ex_iff)
  ultimately have blocked: "\<not> validate_command payload"
    by (simp add: validate_command_def)
  from assms(4) dangerous_nonempty have "c_str payload \<noteq> []" by metis
  then have "payload \<noteq> []" by (auto simp: c_str_def)
  with blocked show ?thesis by (simp add: from_frontend_def)
qed

lemma dangerous_payload_blocked_example:
  "(\<not> prefix ''CWD:'' ''QUERY:sudo rm  -rf ~'' \<and> \<not> prefix ''STATUS'' ''QUERY:sudo rm  -rf ~''
    \<and> \<not> prefix ''BASH_FAILED:'' ''QUERY:sudo rm  -rf ~''
    \<and> (\<exists>p \<in> set dangerous_patterns. regexec p (c_str ''QUERY:sudo rm  -rf ~'')))
   \<and> from_frontend ''QUERY:sudo rm  -rf ~'' True = ([SendFrontend error_msg], Continue)"
proof -
  have h: "\<exists>p \<in> set dangerous_patterns. regexec p (c_str ''QUERY:sudo rm  -rf ~'')"
    by (simp add: dangerous_patterns_def ws_plus_def c_str_def isspace_def)
  show ?thesis
    using h dangerous_payload_blocked [of "''QUERY:sudo rm  -rf ~''" True] by simp
qed

text \<open>
  Claim C1 at the payload \<^verbatim>\<open>ls\0; rm -rf /\<close>: it begins with none of the system
  prefixes and its bytes match the first dangerous pattern, and the proxy forwards all
  of it to the backend. \<^verbatim>\<open>validate_command\<close> reads the receive buffer as a C
  string and sees \<^verbatim>\<open>ls\<close> only, while \<^verbatim>\<open>send\<close> forwards the \<^verbatim>\<open>bytes\<close> received.
\<close>

theorem nul_payload_forwarded:
  "\<not> prefix ''CWD:'' (''ls'' @ [CHR 0x00] @ ''; rm -rf /'')
   \<and> \<not> prefix ''STATUS'' (''ls'' @ [CHR 0x00] @ ''; rm -rf /'')
   \<and> \<not> prefix ''BASH_FAILED:'' (''ls'' @ [CHR 0x00] @ ''; rm -rf /'')
   \<and> list_ex (\<lambda>p. regexec p (''ls'' @ [CHR 0x00] @ ''; rm -rf /'')) dangerous_patterns
   \<and> from_frontend (''ls'' @ [CHR 0x00] @ ''; rm -rf /'') True
       = ([SendBackend (''ls'' @ [CHR 0x00] @ ''; rm -rf /'')], Continue)"
  by (simp add: from_frontend_def validate_command_def is_system_command_def c_str_def
      dangerous_patterns_def sensitive_patterns_def ws_plus_def isspace_def contains_def)

text \<open>
  Claim C2, as stated, fails for \<^verbatim>\<open>STATUS\<close>: the source compares it with
  \<^verbatim>\<open>strcmp\<close>, so a payload that only begins with \<^verbatim>\<open>STATUS\<close> is checked against the
  patterns like any other.
\<close>

theorem status_prefix_counterexample:
  "prefix ''STATUS'' ''STATUS rm -rf /''
   \<and> from_frontend ''STATUS rm -rf /'' True = ([SendFrontend error_msg], Continue)"
  by (simp add: from_frontend_def validate_command_def is_system_command_def c_str_def
      dangerous_patterns_def ws_plus_def isspace_def)

text \<open>
  Claim C2, amended. A payload that begins with \<^verbatim>\<open>CWD:\<close> or \<^verbatim>\<open>BASH_FAILED:\<close>, or
  that is exactly \<^verbatim>\<open>STATUS\<close> as a C string, is never checked against the patterns or
  the \<^verbatim>\<open>rm\<close>/\<^verbatim>\<open>-rf\<close> rule: the proxy forwards all of its bytes to the backend
  unchanged, whatever its body holds.
\<close>

theorem system_command_forwarded:
  assumes "prefix ''CWD:'' payload \<or> c_str payload = ''STATUS'' \<or> prefix ''BASH_FAILED:'' payload"
  shows "from_frontend payload ok = ([SendBackend payload], if ok then Continue else Break)"
proof -
  have "is_system_command (c_str payload)"
    using assms c_str_keeps_prefix [of _ payload]
    unfolding is_system_command_def by auto
  then have "validate_command payload" by (simp add: validate_command_def)
  moreover have "payload \<noteq> []" using assms by (auto simp: c_str_def)
  ultimately show ?thesis by (simp add: from_frontend_def)
qed

theorem system_command_forwarded_witness:
  "(prefix ''CWD:'' ''CWD:/tmp/x; rm -rf /'' \<or> c_str ''CWD:/tmp/x; rm -rf /'' = ''STATUS''
     \<or> prefix ''BASH_FAILED:'' ''CWD:/tmp/x; rm -rf /'')
   \<and> (\<exists>p \<in> set dangerous_patterns. regexec p (c_str ''CWD:/tmp/x; rm -rf /''))
   \<and> from_frontend ''CWD:/tmp/x; rm -rf /'' True = ([SendBackend ''CWD:/tmp/x; rm -rf /''], Continue)"
proof -
  have h: "\<exists>p \<in> set dangerous_patterns. regexec p (c_str ''CWD:/tmp/x; rm -rf /'')"
    by (simp add: dangerous_patterns_def ws_plus_def c_str_def isspace_def)
  show ?thesis
    using h system_command_forwarded [of "''CWD:/tmp/x; rm -rf /''" True] by simp
qed

section \<open>Properties of the AI-query heuristic\<close>

text \<open>
  Claim C5 at the line \<^verbatim>\<open>find . -name notes.txt\<close>: it holds no question mark and
  its first word \<^verbatim>\<open>find\<close> is in the known shell commands, and \<^verbatim>\<open>is_ai_query\<close>
  answers that it is an AI query, because the indicator words are searched first and
  \<^verbatim>\<open>find\<close> is one of them.
\<close>

theorem known_shell_first_word_routed_to_ai:
  "\<not> has_char ''find . -name notes.txt'' (CHR ''?'')
   \<and> scan_word ''find . -name notes.txt'' = Some ''find''
   \<and> ''find'' \<in> set shell_commands
   \<and> is_ai_query ''find . -name notes.txt''"
  by (simp add: has_char_def scan_word_def isspace_def shell_commands_def is_ai_query_def
      ai_indicators_def tolower_def contains_def)

section \<open>Properties of the sandbox validator\<close>

subsection \<open>The accumulation loop\<close>

text \<open>
  A chunk without the prompt leaves \<open>attempts\<close> as it is. While the PTY keeps
  delivering such chunks the loop makes no progress towards its bound.
\<close>

lemma read_output_no_return:
  assumes "read_output pty ps1 k st = Some y"
  shows "\<not> ((\<forall>j \<ge> k. \<exists>b. pty j = PtyData b \<and> \<not> contains (c_str b) ps1) \<and> attempts st < 50)"
proof (rule read_output.raw_induct
    [where P = "\<lambda>pty ps1 k st y.
       \<not> ((\<forall>j \<ge> k. \<exists>b. pty j = PtyData b \<and> \<not> contains (c_str b) ps1) \<and> attempts st < 50)",
     OF _ assms])
  fix f :: "(nat \<Rightarrow> pty_event) \<Rightarrow> string \<Rightarrow> nat \<Rightarrow> read_state \<Rightarrow> (nat \<times> read_state) option"
    and pty ps1 k st y
  assume IH: "\<And>pty ps1 k st y. f pty ps1 k st = Some y \<Longrightarrow>
      \<not> ((\<forall>j \<ge> k. \<exists>b. pty j = PtyData b \<and> \<not> contains (c_str b) ps1) \<and> attempts st < 50)"
  assume step: "(if attempts st < 50
      then case pty k of
           PtyTimeout \<Rightarrow>
             if 0 < length (out st) \<and> prompt_detected st
             then Some (Suc k, st)
             else f pty ps1 (Suc k) (st\<lparr>attempts := attempts st + 1\<rparr>)
           | PtyData buffer \<Rightarrow>
               let st1 = st\<lparr>out := if length (out st) + length buffer < 65535
                                      then out st @ buffer else out st,
                              consecutive_empty_reads := 0\<rparr>
               in if contains (c_str buffer) ps1
                  then f pty ps1 (Suc k)
                        (st1\<lparr>prompt_detected := True, attempts := attempts st1 + 1\<rparr>)
                  else f pty ps1 (Suc k) st1
           | PtyEof \<Rightarrow>
               let st1 = st\<lparr>consecutive_empty_reads := consecutive_empty_reads st + 1\<rparr>
               in if 10 \<le> consecutive_empty_reads st1 then Some (Suc k, st1)
                  else f pty ps1 (Suc k) st1
      else Some (k, st)) = Some y"
  show "\<not> ((\<forall>j \<ge> k. \<exists>b. pty j = PtyData b \<and> \<not> contains (c_str b) ps1) \<and> attempts st < 50)"
  proof
    assume h: "(\<forall>j \<ge> k. \<exists>b. pty j = PtyData b \<and> \<not> contains (c_str b) ps1) \<and> attempts st < 50"
    then obtain b where b: "pty k = PtyData b" "\<not> contains (c_str b) ps1" by auto
    define st1 where "st1 = st\<lparr>out := (if length (out st) + length b < 65535
                                     then out st @ b else out st),
                            consecutive_empty_reads := 0\<rparr>"
    from step h b have "f pty ps1 (Suc k) st1 = Some y"
      by (simp add: st1_def Let_def)
    moreover have "(\<forall>j \<ge> Suc k. \<exists>b. pty j = PtyData b \<and> \<not> contains (c_str b) ps1) \<and> attempts st1 < 50"
      using h by (simp add: st1_def)
    ultimately show False using IH by blast
  qed
qed

lemma read_output_diverges:
  assumes "\<forall>j \<ge> k. \<exists>b. pty j = PtyData b \<and> \<not> contains (c_str b) ps1" and "attempts st < 50"
  shows "read_output pty ps1 k st = None"
proof (cases "read_output pty ps1 k st")
  case None
  then show ?thesis .
next
  case (Some y)
  with read_output_no_return [OF Some] assms show ?thesis by blast
qed

text \<open>
  Claim C6 at a command that prints without pause and never shows the prompt (such as
  \<^verbatim>\<open>yes\<close>): every \<^verbatim>\<open>select\<close> finds data, the loop never reaches its bound of 50
  attempts and never returns.
\<close>

theorem loop_never_ends_on_steady_output:
  "read_output (\<lambda>k. PtyData ''y'') ''$ '' 2 loop_start = None"
  by (rule read_output_diverges) (simp_all add: contains_def c_str_def loop_start_def)

lemma execute_steady_output:
  "execute_command_in_sandbox True (\<lambda>k. if k = 0 then PtyTimeout else PtyData ''y'') True cmd
     = None"
proof -
  let ?pty = "\<lambda>k::nat. if k = 0 then PtyTimeout else PtyData ''y''"
  have c: "clear_pty ?pty 0 = Some (Suc 0)"
    by (simp add: clear_pty.simps)
  have p: "probe_ps1 (?pty (Suc 0)) = ''$ ''"
    by (simp add: probe_ps1_def c_str_def)
  have "read_output ?pty ''$ '' (Suc (Suc 0)) loop_start = None"
    by (rule read_output_diverges) (simp_all add: contains_def c_str_def loop_start_def)
  with c p show ?thesis
    by (simp add: execute_command_in_sandbox_def)
qed

lemma execute_after_loop:
  assumes "clear_pty pty 0 = Some k1"
    and "read_output pty (probe_ps1 (pty k1)) (Suc k1) loop_start = Some (k2, st)"
  shows "execute_command_in_sandbox True pty True cmd
           = Some (classify cmd [full_cmd cmd, ps1_query] k2 st)"
  using assms by (simp add: execute_command_in_sandbox_def)

subsection \<open>Verdicts\<close>

text \<open>
  Claim C3, as stated, fails when the prompt was not seen: the check for the prompt
  comes first, and a run whose output holds \<^verbatim>\<open>command not found\<close> but no prompt is
  reported as interactive, whatever the number of words.
\<close>

theorem error_output_without_prompt_counterexample:
  "has_error_indicator (cleaned_output ''foobar --baz''
      \<lparr>out = ''bash: line 1: foobar: command not found'' @ [CHR 0x0A],
       prompt_detected = False, attempts = 50, consecutive_empty_reads = 0\<rparr>)
   \<and> word_count ''foobar --baz'' < 3
   \<and> read_output (script [PtyTimeout, PtyTimeout,
         PtyData (''bash: line 1: foobar: command not found'' @ [CHR 0x0A])]) ''$ '' 2 loop_start
       = Some (53, \<lparr>out = ''bash: line 1: foobar: command not found'' @ [CHR 0x0A],
                      prompt_detected = False, attempts = 50, consecutive_empty_reads = 0\<rparr>)
   \<and> execute_command_in_sandbox True (script [PtyTimeout, PtyTimeout,
         PtyData (''bash: line 1: foobar: command not found'' @ [CHR 0x0A])]) True ''foobar --baz''
       = Some \<lparr>res_ret = 0, res_exit_code = - 103, res_stdout = ''INTERACTIVE_COMMAND'',
               res_stderr = [],
               res_writes = [full_cmd ''foobar --baz'', ps1_query, ctrl_c], res_pos = 54\<rparr>"
proof -
  let ?pty = "script [PtyTimeout, PtyTimeout,
         PtyData (''bash: line 1: foobar: command not found'' @ [CHR 0x0A])]"
  let ?st = "\<lparr>out = ''bash: line 1: foobar: command not found'' @ [CHR 0x0A],
       prompt_detected = False, attempts = 50, consecutive_empty_reads = 0\<rparr>"
  have e: "has_error_indicator (cleaned_output ''foobar --baz'' ?st)"
    by (simp add: has_error_indicator_def cleaned_output_def c_str_def contains_def
        filter_lines.simps)
  have w: "word_count ''foobar --baz'' < 3"
    by (simp add: word_count_def)
  have c: "clear_pty ?pty 0 = Some (Suc 0)"
    by (simp add: clear_pty.simps script_def)
  have p: "probe_ps1 (?pty (Suc 0)) = ''$ ''"
    by (simp add: probe_ps1_def script_def)
  have l: "read_output ?pty ''$ '' 2 loop_start = Some (53, ?st)"
    by (simp add: read_output.simps script_def loop_start_def contains_def c_str_def)
  have x: "execute_command_in_sandbox True ?pty True ''foobar --baz''
       = Some \<lparr>res_ret = 0, res_exit_code = - 103, res_stdout = ''INTERACTIVE_COMMAND'',
               res_stderr = [],
               res_writes = [full_cmd ''foobar --baz'', ps1_query, ctrl_c], res_pos = 54\<rparr>"
    using c p l by (simp add: execute_command_in_sandbox_def classify_def numeral_2_eq_2)
  show ?thesis using e w l x by blast
qed

text \<open>
  Claim C3, amended. When the loop has returned with the prompt seen and the captured
  output, after the two filters, holds one of the error indicators, the verdict depends
  on the words of the command alone, counted on space and tab: \<open>-109\<close> for fewer than
  three, \<open>-113\<close> for three or more.
\<close>

theorem error_output_verdict_by_word_count:
  assumes "clear_pty pty 0 = Some k1"
    and "read_output pty (probe_ps1 (pty k1)) (Suc k1) loop_start = Some (k2, st)"
    and "prompt_detected st"
    and "has_error_indicator (cleaned_output cmd st)"
  shows "\<exists>r. execute_command_in_sandbox True pty True cmd = Some r \<and> res_ret r = 0
           \<and> res_exit_code r = (if word_count cmd < 3 then - 109 else - 113)"
  using assms(3,4) execute_after_loop [OF assms(1,2)]
  by (auto simp: classify_def Let_def)

theorem error_output_verdict_by_word_count_witness:
  "clear_pty (script [PtyTimeout, PtyTimeout,
       PtyData (''bash: line 1: foobar: command not found'' @ [CHR 0x0A] @ ''EXIT_CODE:127''
                @ [CHR 0x0A] @ ''$ '')]) 0 = Some 1
   \<and> read_output (script [PtyTimeout, PtyTimeout,
       PtyData (''bash: line 1: foobar: command not found'' @ [CHR 0x0A] @ ''EXIT_CODE:127''
                @ [CHR 0x0A] @ ''$ '')]) ''$ '' 2 loop_start
       = Some (4, \<lparr>out = ''bash: line 1: foobar: command not found'' @ [CHR 0x0A]
                           @ ''EXIT_CODE:127'' @ [CHR 0x0A] @ ''$ '',
                     prompt_detected = True, attempts = 1, consecutive_empty_reads = 0\<rparr>)
   \<and> (\<exists>r. execute_command_in_sandbox True (script [PtyTimeout, PtyTimeout,
       PtyData (''bash: line 1: foobar: command not found'' @ [CHR 0x0A] @ ''EXIT_CODE:127''
                @ [CHR 0x0A] @ ''$ '')]) True ''foobar --baz'' = Some r
        \<and> res_ret r = 0 \<and> res_exit_code r = - 109)"
proof -
  let ?pty = "script [PtyTimeout, PtyTimeout,
       PtyData (''bash: line 1: foobar: command not found'' @ [CHR 0x0A] @ ''EXIT_CODE:127''
                @ [CHR 0x0A] @ ''$ '')]"
  let ?st = "\<lparr>out = ''bash: line 1: foobar: command not found'' @ [CHR 0x0A]
                           @ ''EXIT_CODE:127'' @ [CHR 0x0A] @ ''$ '',
                     prompt_detected = True, attempts = 1, consecutive_empty_reads = 0\<rparr>"
  have h1: "clear_pty ?pty 0 = Some 1"
    by (simp add: clear_pty.simps script_def)
  have p: "probe_ps1 (?pty 1) = ''$ ''"
    by (simp add: probe_ps1_def script_def)
  have l: "read_output ?pty ''$ '' 2 loop_start = Some (4, ?st)"
    by (simp add: read_output.simps script_def loop_start_def contains_def c_str_def)
  have h2: "read_output ?pty (probe_ps1 (?pty 1)) (Suc 1) loop_start = Some (4, ?st)"
    using l p by (simp add: numeral_2_eq_2)
  have h3: "prompt_detected ?st" by simp
  have h4: "has_error_indicator (cleaned_output ''foobar --baz'' ?st)"
    by (simp add: has_error_indicator_def cleaned_output_def c_str_def contains_def
        filter_lines.simps)
  have w: "word_count ''foobar --baz'' = 2"
    by (simp add: word_count_def)
  have r: "\<exists>r. execute_command_in_sandbox True ?pty True ''foobar --baz'' = Some r
        \<and> res_ret r = 0 \<and> res_exit_code r = - 109"
    using error_output_verdict_by_word_count [OF h1 h2 h3 h4] w by simp
  show ?thesis using h1 l r by blast
qed

lemma interactive_record_text:
  "write_result_to_mmap (- 103) ''INTERACTIVE_COMMAND'' []
   = ''EXIT_CODE:-103'' @ [CHR 0x0A] @ ''STDOUT_LEN:19'' @ [CHR 0x0A]
     @ ''STDOUT:INTERACTIVE_COMMAND'' @ [CHR 0x0A] @ ''STDERR_LEN:0'' @ [CHR 0x0A]
     @ ''STDERR:'' @ [CHR 0x0A]"
  by (simp add: write_result_to_mmap_def write_payload_def write_exit_code_def MMAP_SIZE_def
      c_str_def show_int_def show_nat.simps digit_char_def)

lemma interactive_record_read:
  "test_command_in_sandbox True True (write_result_to_mmap (- 103) ''INTERACTIVE_COMMAND'' [])
   = - 103"
  unfolding interactive_record_text
  by (simp add: test_command_in_sandbox_def send_to_sandbox_def c_str_def contains_def)

text \<open>
  When the loop has returned without the prompt, the sandbox writes Ctrl-C to the
  session, makes one more \<^verbatim>\<open>select\<close> to drain it, and returns the verdict \<open>-103\<close>
  with the output \<^verbatim>\<open>INTERACTIVE_COMMAND\<close>; the handler publishes that record and
  acknowledges with \<^verbatim>\<open>OK\<close>; a frontend that has the acknowledgment reads \<open>-103\<close>
  from the record, and the dispatcher then releases the terminal from the line editor,
  restores the terminal settings and runs the command on its own terminal.
\<close>

lemma no_prompt_reports_interactive:
  assumes "clear_pty pty 0 = Some k1"
    and "read_output pty (probe_ps1 (pty k1)) (Suc k1) loop_start = Some (k2, st)"
    and "\<not> prompt_detected st"
    and "take 1023 line \<noteq> []"
    and "bash_ready srv" and "mmap_mapped srv"
    and "result \<noteq> 0" and "backend_ready \<or> sandbox_ready"
    and "\<not> (is_ai_query line \<and> backend_ready)"
  shows "execute_command_in_sandbox True pty True (c_str (take 1023 line))
           = Some \<lparr>res_ret = 0, res_exit_code = - 103, res_stdout = ''INTERACTIVE_COMMAND'',
                   res_stderr = [],
                   res_writes = [full_cmd (c_str (take 1023 line)), ps1_query, ctrl_c],
                   res_pos = Suc k2\<rparr>
         \<and> handle_client_request srv pty True line
           = Some ([PtyWrite (full_cmd (c_str (take 1023 line))), PtyWrite ps1_query,
                    PtyWrite ctrl_c,
                    MmapWrite (write_result_to_mmap (- 103) ''INTERACTIVE_COMMAND'' []),
                    SockSend ''OK''],
                   srv\<lparr>mmap_text := write_result_to_mmap (- 103) ''INTERACTIVE_COMMAND'' []\<rparr>)
         \<and> test_command_in_sandbox True True
              (write_result_to_mmap (- 103) ''INTERACTIVE_COMMAND'' []) = - 103
         \<and> execute_command_securely backend_ready sandbox_ready verbose result
              (test_command_in_sandbox True True
                 (write_result_to_mmap (- 103) ''INTERACTIVE_COMMAND'' [])) interactive_result line
           = [System line, RlDeprepTerminal, Tcsetattr, System line, RlPrepTerminal]
             @ (if interactive_result \<noteq> 0 \<and> verbose \<ge> 1
                then [PrintCommandExited (wexitstatus interactive_result)] else [])"
proof -
  let ?cmd = "c_str (take 1023 line)"
  have x: "execute_command_in_sandbox True pty True ?cmd
           = Some \<lparr>res_ret = 0, res_exit_code = - 103, res_stdout = ''INTERACTIVE_COMMAND'',
                   res_stderr = [], res_writes = [full_cmd ?cmd, ps1_query, ctrl_c],
                   res_pos = Suc k2\<rparr>"
    using execute_after_loop [OF assms(1,2)] assms(3) by (simp add: classify_def)
  have h: "handle_client_request srv pty True line
           = Some ([PtyWrite (full_cmd ?cmd), PtyWrite ps1_query, PtyWrite ctrl_c,
                    MmapWrite (write_result_to_mmap (- 103) ''INTERACTIVE_COMMAND'' []),
                    SockSend ''OK''],
                   srv\<lparr>mmap_text := write_result_to_mmap (- 103) ''INTERACTIVE_COMMAND'' []\<rparr>)"
    using x assms(4,5,6) by (simp add: handle_client_request_def publish_def Let_def)
  have d: "execute_command_securely backend_ready sandbox_ready verbose result (- 103)
             interactive_result line
           = [System line, RlDeprepTerminal, Tcsetattr, System line, RlPrepTerminal]
             @ (if interactive_result \<noteq> 0 \<and> verbose \<ge> 1
                then [PrintCommandExited (wexitstatus interactive_result)] else [])"
    using assms(7,8,9) by (auto simp: execute_command_securely_def run_interactive_command_def)
  show ?thesis
    using x h d by (simp only: interactive_record_read simp_thms)
qed

lemma no_prompt_reports_interactive_example:
  "clear_pty (script [PtyTimeout, PtyTimeout, PtyData ([CHR 0x1B] @ ''[?1049h'')]) 0 = Some 1
   \<and> read_output (script [PtyTimeout, PtyTimeout, PtyData ([CHR 0x1B] @ ''[?1049h'')])
         ''$ '' 2 loop_start
       = Some (53, \<lparr>out = [CHR 0x1B] @ ''[?1049h'', prompt_detected = False, attempts = 50,
                      consecutive_empty_reads = 0\<rparr>)
   \<and> \<not> is_ai_query ''vim notes.txt''
   \<and> handle_client_request \<lparr>bash_ready = True, mmap_mapped = True, mmap_text = []\<rparr>
         (script [PtyTimeout, PtyTimeout, PtyData ([CHR 0x1B] @ ''[?1049h'')]) True
         ''vim notes.txt''
       = Some ([PtyWrite (full_cmd ''vim notes.txt''), PtyWrite ps1_query, PtyWrite ctrl_c,
                MmapWrite (write_result_to_mmap (- 103) ''INTERACTIVE_COMMAND'' []),
                SockSend ''OK''],
               \<lparr>bash_ready = True, mmap_mapped = True,
                mmap_text = write_result_to_mmap (- 103) ''INTERACTIVE_COMMAND'' []\<rparr>)
   \<and> execute_command_securely True True 1 256
         (test_command_in_sandbox True True
            (write_result_to_mmap (- 103) ''INTERACTIVE_COMMAND'' [])) 0 ''vim notes.txt''
       = [System ''vim notes.txt'', RlDeprepTerminal, Tcsetattr, System ''vim notes.txt'',
          RlPrepTerminal]"
proof -
  let ?pty = "script [PtyTimeout, PtyTimeout, PtyData ([CHR 0x1B] @ ''[?1049h'')]"
  let ?st = "\<lparr>out = [CHR 0x1B] @ ''[?1049h'', prompt_detected = False, attempts = 50,
                      consecutive_empty_reads = 0\<rparr>"
  let ?srv = "\<lparr>bash_ready = True, mmap_mapped = True, mmap_text = []\<rparr>"
  have h1: "clear_pty ?pty 0 = Some 1"
    by (simp add: clear_pty.simps script_def)
  have p: "probe_ps1 (?pty 1) = ''$ ''"
    by (simp add: probe_ps1_def script_def)
  have l: "read_output ?pty ''$ '' 2 loop_start = Some (53, ?st)"
    by (simp add: read_output.simps script_def loop_start_def contains_def c_str_def)
  have h2: "read_output ?pty (probe_ps1 (?pty 1)) (Suc 1) loop_start = Some (53, ?st)"
    using l p by (simp add: numeral_2_eq_2)
  have h3: "\<not> prompt_detected ?st" by simp
  have h4: "take 1023 ''vim notes.txt'' \<noteq> []" by simp
  have h9: "\<not> is_ai_query ''vim notes.txt''"
    by (simp add: is_ai_query_def ai_indicators_def tolower_def contains_def has_char_def
        scan_word_def isspace_def)
  have c: "c_str (take 1023 ''vim notes.txt'') = ''vim notes.txt''"
    by (simp add: c_str_def)
  note inst = no_prompt_reports_interactive
    [OF h1 h2 h3 h4, of ?srv 256 True True 1 0, unfolded c]
  have r: "bash_ready ?srv" "mmap_mapped ?srv" "(256::int) \<noteq> 0" "True \<or> True"
    "\<not> (is_ai_query ''vim notes.txt'' \<and> True)"
    using h9 by simp_all
  have a: "handle_client_request ?srv ?pty True ''vim notes.txt''
       = Some ([PtyWrite (full_cmd ''vim notes.txt''), PtyWrite ps1_query, PtyWrite ctrl_c,
                MmapWrite (write_result_to_mmap (- 103) ''INTERACTIVE_COMMAND'' []),
                SockSend ''OK''],
               ?srv\<lparr>mmap_text := write_result_to_mmap (- 103) ''INTERACTIVE_COMMAND'' []\<rparr>)"
    using inst [OF r] by blast
  have "execute_command_securely True True 1 256
         (test_command_in_sandbox True True
            (write_result_to_mmap (- 103) ''INTERACTIVE_COMMAND'' [])) 0 ''vim notes.txt''
       = [System ''vim notes.txt'', RlDeprepTerminal, Tcsetattr, System ''vim notes.txt'',
          RlPrepTerminal]
         @ (if (0::int) \<noteq> 0 \<and> (1::int) \<ge> 1 then [PrintCommandExited (wexitstatus 0)]
            else [])"
    using inst [OF r] by blast
  also have "\<dots> = [System ''vim notes.txt'', RlDeprepTerminal, Tcsetattr,
                     System ''vim notes.txt'', RlPrepTerminal]"
    by simp
  finally have b: "execute_command_securely True True 1 256
         (test_command_in_sandbox True True
            (write_result_to_mmap (- 103) ''INTERACTIVE_COMMAND'' [])) 0 ''vim notes.txt''
       = [System ''vim notes.txt'', RlDeprepTerminal, Tcsetattr, System ''vim notes.txt'',
          RlPrepTerminal]" .
  have s: "?srv\<lparr>mmap_text := write_result_to_mmap (- 103) ''INTERACTIVE_COMMAND'' []\<rparr>
      = \<lparr>bash_ready = True, mmap_mapped = True,
         mmap_text = write_result_to_mmap (- 103) ''INTERACTIVE_COMMAND'' []\<rparr>"
    by simp
  show ?thesis
    using h1 l h9 a [unfolded s] b by (intro conjI)
qed

text \<open>
  Claim C7 at the command \<^verbatim>\<open>yes\<close>, whose output never shows the prompt: the
  validation never returns, so no Ctrl-C is written and no verdict is reported; the
  frontend, left without an acknowledgment, gets \<open>-1\<close> from
  \<^verbatim>\<open>test_command_in_sandbox\<close>, and the dispatcher hands the command to the backend
  instead of running it on the terminal.
\<close>

theorem steady_output_never_reported:
  "\<not> contains (c_str ''y'') ''$ ''
   \<and> execute_command_in_sandbox True (\<lambda>k. if k = 0 then PtyTimeout else PtyData ''y'')
         True ''yes'' = None
   \<and> \<not> is_ai_query ''yes''
   \<and> test_command_in_sandbox True False region = - 1
   \<and> execute_command_securely True True verbose 256
         (test_command_in_sandbox True False region) interactive_result ''yes''
       = [System ''yes'', PrintThinking, SendToBackendDirectly ''yes'']"
proof -
  have a: "\<not> contains (c_str ''y'') ''$ ''"
    by (simp add: contains_def c_str_def)
  have b: "execute_command_in_sandbox True (\<lambda>k. if k = 0 then PtyTimeout else PtyData ''y'')
         True ''yes'' = None"
    by (rule execute_steady_output)
  have c: "\<not> is_ai_query ''yes''"
    by (simp add: is_ai_query_def ai_indicators_def tolower_def contains_def has_char_def
        scan_word_def isspace_def)
  have d: "test_command_in_sandbox True False region = - 1"
    by (simp add: test_command_in_sandbox_def send_to_sandbox_def)
  have e: "execute_command_securely True True verbose 256
         (test_command_in_sandbox True False region) interactive_result ''yes''
       = [System ''yes'', PrintThinking, SendToBackendDirectly ''yes'']"
    unfolding d using c by (simp add: execute_command_securely_def route_to_ai_def)
  show ?thesis using a b c d e by (intro conjI)
qed

section \<open>Properties of the verdict record\<close>

subsection \<open>What the sandbox writes\<close>

lemma write_exit_code_fits:
  assumes "int (length (''EXIT_CODE:'' @ show_int code @ [CHR 0x0A])) < remaining"
  shows "write_exit_code code (text, remaining)
         = (text @ ''EXIT_CODE:'' @ show_int code @ [CHR 0x0A],
            remaining - int (length (''EXIT_CODE:'' @ show_int code @ [CHR 0x0A])))"
  using assms by (simp add: write_exit_code_def Let_def)

lemma write_payload_fits:
  assumes "int (length (name @ ''_LEN:'' @ show_nat (length str) @ [CHR 0x0A] @ name @ '':''))
           + int (length str) < remaining"
  shows "write_payload name str (text, remaining)
         = (text @ name @ ''_LEN:'' @ show_nat (length str) @ [CHR 0x0A] @ name @ '':''
              @ str @ [CHR 0x0A],
            remaining
            - int (length (name @ ''_LEN:'' @ show_nat (length str) @ [CHR 0x0A] @ name @ '':''))
            - int (length str) - 1)"
proof (cases "str = []")
  case True
  with assms show ?thesis by (simp add: write_payload_def Let_def)
next
  case False
  with assms show ?thesis by (simp add: write_payload_def Let_def)
qed

lemma write_result_layout:
  assumes "length (spec_verdict_record code (c_str so) (c_str se)) < 1048575"
  shows "write_result_to_mmap code so se = spec_verdict_record code (c_str so) (c_str se)"
proof -
  let ?o = "c_str so" and ?e = "c_str se"
  let ?l1 = "''EXIT_CODE:'' @ show_int code @ [CHR 0x0A]"
  let ?h2 = "''STDOUT'' @ ''_LEN:'' @ show_nat (length ?o) @ [CHR 0x0A] @ ''STDOUT'' @ '':''"
  let ?h3 = "''STDERR'' @ ''_LEN:'' @ show_nat (length ?e) @ [CHR 0x0A] @ ''STDERR'' @ '':''"
  have total: "int (length ?l1) + (int (length ?h2) + int (length ?o) + 1)
               + (int (length ?h3) + int (length ?e) + 1) < 1048575"
    using assms by (simp add: spec_verdict_record_def)
  have s1: "write_exit_code code ([], MMAP_SIZE - 1) = (?l1, 1048575 - int (length ?l1))"
    using total write_exit_code_fits [of code 1048575 "[]"] by (simp add: MMAP_SIZE_def)
  have s2: "write_payload ''STDOUT'' ?o (?l1, 1048575 - int (length ?l1))
            = (?l1 @ ?h2 @ ?o @ [CHR 0x0A],
               1048575 - int (length ?l1) - int (length ?h2) - int (length ?o) - 1)"
    using total write_payload_fits [of "''STDOUT''" ?o "1048575 - int (length ?l1)" ?l1]
    by simp
  have s3: "write_payload ''STDERR'' ?e
              (?l1 @ ?h2 @ ?o @ [CHR 0x0A],
               1048575 - int (length ?l1) - int (length ?h2) - int (length ?o) - 1)
            = ((?l1 @ ?h2 @ ?o @ [CHR 0x0A]) @ ?h3 @ ?e @ [CHR 0x0A],
               1048575 - int (length ?l1) - int (length ?h2) - int (length ?o) - 1
               - int (length ?h3) - int (length ?e) - 1)"
    using total
      write_payload_fits [of "''STDERR''" ?e
        "1048575 - int (length ?l1) - int (length ?h2) - int (length ?o) - 1"
        "?l1 @ ?h2 @ ?o @ [CHR 0x0A]"]
    by simp
  show ?thesis
    unfolding write_result_to_mmap_def s1 s2 s3
    by (simp add: spec_verdict_record_def)
qed

lemma record_no_nul:
  assumes "CHR 0x00 \<notin> set so" and "CHR 0x00 \<notin> set se"
  shows "CHR 0x00 \<notin> set (spec_verdict_record code so se)"
proof -
  have "CHR 0x00 \<notin> set (show_int code)" by (rule show_int_not) simp_all
  moreover have "CHR 0x00 \<notin> set (show_nat (length so))" by (rule show_nat_not) simp
  moreover have "CHR 0x00 \<notin> set (show_nat (length se))" by (rule show_nat_not) simp
  ultimately show ?thesis using assms by (simp add: spec_verdict_record_def)
qed

lemma write_payload_appends: "\<exists>x. fst (write_payload name str (text, r)) = text @ x"
  by (simp add: write_payload_def Let_def)

lemma write_result_head:
  assumes "- (2 ^ 31) \<le> e" and "e < 2 ^ 31"
  shows "\<exists>x. write_result_to_mmap e so se = ''EXIT_CODE:'' @ show_int e @ CHR 0x0A # x"
proof -
  let ?l1 = "''EXIT_CODE:'' @ show_int e @ [CHR 0x0A]"
  have "length (show_int e) \<le> 11" using assms by (rule show_int_length)
  then have "int (length ?l1) < 1048575" by simp
  then have s1: "write_exit_code e ([], MMAP_SIZE - 1) = (?l1, 1048575 - int (length ?l1))"
    using write_exit_code_fits [of e 1048575 "[]"] by (simp add: MMAP_SIZE_def)
  obtain x where x: "fst (write_payload ''STDOUT'' (c_str so) (?l1, 1048575 - int (length ?l1)))
                     = ?l1 @ x"
    using write_payload_appends by blast
  obtain r where r: "write_payload ''STDOUT'' (c_str so) (?l1, 1048575 - int (length ?l1))
                     = (?l1 @ x, r)"
    using x by (cases "write_payload ''STDOUT'' (c_str so) (?l1, 1048575 - int (length ?l1))") simp
  obtain y where y: "fst (write_payload ''STDERR'' (c_str se) (?l1 @ x, r)) = (?l1 @ x) @ y"
    using write_payload_appends by blast
  have "write_result_to_mmap e so se = (?l1 @ x) @ y"
    unfolding write_result_to_mmap_def s1 r y ..
  then show ?thesis by simp
qed

subsection \<open>What the frontend reads\<close>

lemma parse_exit_code_head:
  assumes "- (2 ^ 31) \<le> e" and "e < 2 ^ 31"
  shows "parse_exit_code (''EXIT_CODE:'' @ show_int e @ CHR 0x0A # rest) = e"
proof -
  have "digit_val (CHR 0x0A) = None" by (simp add: digit_val_def)
  then have "atoi (show_int e @ CHR 0x0A # rest) = e"
    using assms by (intro atoi_show_int) simp_all
  then show ?thesis by (simp add: parse_exit_code_def)
qed

lemma response_head:
  assumes "- (2 ^ 31) \<le> e" and "e < 2 ^ 31"
  shows "\<exists>x. take 4095 (c_str (write_result_to_mmap e so se))
             = ''EXIT_CODE:'' @ show_int e @ CHR 0x0A # x"
proof -
  let ?l1 = "''EXIT_CODE:'' @ show_int e @ [CHR 0x0A]"
  obtain x where x: "write_result_to_mmap e so se = ?l1 @ x"
    using write_result_head [OF assms] by auto
  have "CHR 0x00 \<notin> set (show_int e)" by (rule show_int_not) simp_all
  then have "CHR 0x00 \<notin> set ?l1" by simp
  then have c: "c_str (?l1 @ x) = ?l1 @ c_str x" by (rule c_str_append_clean)
  have "length (show_int e) \<le> 11" using assms by (rule show_int_length)
  then have "length ?l1 \<le> 4095" by simp
  then have "take 4095 (?l1 @ c_str x) = ?l1 @ take (4095 - length ?l1) (c_str x)"
    by (rule take_head)
  with x c have "take 4095 (c_str (write_result_to_mmap e so se))
      = ?l1 @ take (4095 - length ?l1) (c_str x)"
    by simp
  then show ?thesis by simp
qed

lemma parse_exit_code_response:
  assumes "- (2 ^ 31) \<le> e" and "e < 2 ^ 31"
  shows "parse_exit_code (take 4095 (c_str (write_result_to_mmap e so se))) = e"
proof -
  obtain x where x: "take 4095 (c_str (write_result_to_mmap e so se))
             = ''EXIT_CODE:'' @ show_int e @ CHR 0x0A # x"
    using response_head [OF assms] by blast
  show ?thesis
    unfolding x using assms by (rule parse_exit_code_head)
qed

lemma test_command_in_sandbox_unfold:
  "test_command_in_sandbox True True region =
     (if contains (take 4095 (c_str region)) ''INTERACTIVE_COMMAND'' then - 103
      else if parse_exit_code (take 4095 (c_str region)) = - 103
              \<or> parse_exit_code (take 4095 (c_str region)) = - 113
              \<or> parse_exit_code (take 4095 (c_str region)) = - 109
        then parse_exit_code (take 4095 (c_str region))
      else if parse_exit_code (take 4095 (c_str region)) = 0
              \<and> length (parse_stderr (take 4095 (c_str region))) = 0 then 0
      else - 2)"
  by (simp add: test_command_in_sandbox_def send_to_sandbox_def Let_def)

lemma find_stderr_len:
  assumes "strstr so ''STDERR_LEN:'' = None"
  shows "strstr (spec_verdict_record e so se) ''STDERR_LEN:''
         = Some (''STDERR_LEN:'' @ show_nat (length se) @ [CHR 0x0A] @ ''STDERR:'' @ se
                 @ [CHR 0x0A])"
proof -
  define t5 where "t5 = ''STDERR_LEN:'' @ show_nat (length se) @ [CHR 0x0A] @ ''STDERR:'' @ se
                 @ [CHR 0x0A]"
  define t3 where "t3 = CHR 0x0A # ''STDOUT:'' @ so @ CHR 0x0A # t5"
  define t1 where "t1 = CHR 0x0A # ''STDOUT_LEN:'' @ show_nat (length so) @ t3"
  have r: "spec_verdict_record e so se = ''EXIT_CODE:'' @ show_int e @ t1"
    by (simp add: spec_verdict_record_def t1_def t3_def t5_def)
  have a: "strstr (''EXIT_CODE:'' @ show_int e @ t1) ''STDERR_LEN:''
           = strstr (show_int e @ t1) ''STDERR_LEN:''"
    by simp
  have b: "strstr (show_int e @ t1) ''STDERR_LEN:'' = strstr t1 ''STDERR_LEN:''"
    by (rule strstr_skip_chars) (simp_all add: S_not_in_show_int)
  have c: "strstr t1 ''STDERR_LEN:'' = strstr (show_nat (length so) @ t3) ''STDERR_LEN:''"
    unfolding t1_def by simp
  have d: "strstr (show_nat (length so) @ t3) ''STDERR_LEN:'' = strstr t3 ''STDERR_LEN:''"
    by (rule strstr_skip_chars) (simp_all add: S_not_in_show_nat)
  have e: "strstr t3 ''STDERR_LEN:'' = strstr (so @ CHR 0x0A # t5) ''STDERR_LEN:''"
    unfolding t3_def by simp
  have f: "strstr (so @ CHR 0x0A # t5) ''STDERR_LEN:'' = strstr (CHR 0x0A # t5) ''STDERR_LEN:''"
    by (rule strstr_skip_free [OF assms]) simp_all
  have g: "strstr (CHR 0x0A # t5) ''STDERR_LEN:'' = Some t5"
    unfolding t5_def by simp
  have "strstr (spec_verdict_record e so se) ''STDERR_LEN:''
        = strstr (''EXIT_CODE:'' @ show_int e @ t1) ''STDERR_LEN:''"
    by (simp only: r)
  also note a
  also note b
  also note c
  also note d
  also note e
  also note f
  also note g
  finally show ?thesis unfolding t5_def .
qed

lemma find_stderr:
  "strstr (''STDERR_LEN:'' @ show_nat m @ [CHR 0x0A] @ ''STDERR:'' @ x) ''STDERR:''
   = Some (''STDERR:'' @ x)"
proof -
  define t where "t = CHR 0x0A # ''STDERR:'' @ x"
  have a: "strstr (''STDERR_LEN:'' @ show_nat m @ t) ''STDERR:''
           = strstr (show_nat m @ t) ''STDERR:''"
    by simp
  have b: "strstr (show_nat m @ t) ''STDERR:'' = strstr t ''STDERR:''"
    by (rule strstr_skip_chars) (simp_all add: S_not_in_show_nat)
  have c: "strstr t ''STDERR:'' = Some (''STDERR:'' @ x)"
    unfolding t_def by simp
  have "''STDERR_LEN:'' @ show_nat m @ [CHR 0x0A] @ ''STDERR:'' @ x
        = ''STDERR_LEN:'' @ show_nat m @ t"
    by (simp add: t_def)
  then show ?thesis using a b c by simp
qed

lemma parse_stderr_record:
  assumes "strstr so ''STDERR_LEN:'' = None" and "length se < 4096"
  shows "parse_stderr (spec_verdict_record e so se) = se"
proof -
  let ?l = "''STDERR_LEN:'' @ show_nat (length se) @ [CHR 0x0A] @ ''STDERR:'' @ se @ [CHR 0x0A]"
  have l: "strstr (spec_verdict_record e so se) ''STDERR_LEN:'' = Some ?l"
    by (rule find_stderr_len [OF assms(1)])
  have s: "strstr ?l ''STDERR:'' = Some (''STDERR:'' @ se @ [CHR 0x0A])"
    by (rule find_stderr)
  have "digit_val (CHR 0x0A) = None" by (simp add: digit_val_def)
  then have "atoi (show_int (int (length se)) @ CHR 0x0A # ''STDERR:'' @ se @ [CHR 0x0A])
             = int (length se)"
    using assms(2) by (intro atoi_show_int) simp_all
  then have n: "atoi (drop 11 ?l) = int (length se)"
    by (simp add: show_int_nat)
  have "parse_stderr (spec_verdict_record e so se)
        = (if int (length se) > 0 \<and> int (length se) < 4096
           then take (nat (int (length se))) (drop 7 (''STDERR:'' @ se @ [CHR 0x0A])) else [])"
    unfolding parse_stderr_def l option.case Let_def n s ..
  also have "\<dots> = se" using assms(2) by simp
  finally show ?thesis .
qed

text \<open>
  Claim C8, as stated, fails for a payload with a NUL byte: \<^verbatim>\<open>write_result_to_mmap\<close>
  takes its payloads as C strings and measures them with \<^verbatim>\<open>strlen\<close>, so the record
  holds each payload only up to its first NUL, and the frontend reads back \<^verbatim>\<open>c\<close>
  where \<^verbatim>\<open>c\0d\<close> was handed over.
\<close>

theorem nul_payload_counterexample:
  "send_to_sandbox True
     (write_result_to_mmap 0 (''a'' @ [CHR 0x00] @ ''b'') (''c'' @ [CHR 0x00] @ ''d''))
   = Some (''EXIT_CODE:0'' @ [CHR 0x0A] @ ''STDOUT_LEN:1'' @ [CHR 0x0A] @ ''STDOUT:a''
           @ [CHR 0x0A] @ ''STDERR_LEN:1'' @ [CHR 0x0A] @ ''STDERR:c'' @ [CHR 0x0A])
   \<and> parse_stderr (''EXIT_CODE:0'' @ [CHR 0x0A] @ ''STDOUT_LEN:1'' @ [CHR 0x0A] @ ''STDOUT:a''
           @ [CHR 0x0A] @ ''STDERR_LEN:1'' @ [CHR 0x0A] @ ''STDERR:c'' @ [CHR 0x0A]) = ''c''
   \<and> ''c'' \<noteq> ''c'' @ [CHR 0x00] @ ''d''"
  by (simp add: send_to_sandbox_def write_result_to_mmap_def write_payload_def
      write_exit_code_def MMAP_SIZE_def c_str_def show_int_def show_nat.simps digit_char_def
      parse_stderr_def atoi_def strtol_def to_int32_def digit_val_def isspace_def)

text \<open>
  Claim C8, amended. For an exit code (a C \<^verbatim>\<open>int\<close>) and two payloads without NUL
  bytes (newlines allowed) whose record is at most 4095 bytes long, the region holds
  exactly the length-prefixed layout, \<^verbatim>\<open>send_to_sandbox\<close> hands back that same text
  with both payloads in it byte for byte, and the frontend's parsing recovers the
  identical exit code and, provided the standard-output payload does not hold the text
  \<^verbatim>\<open>STDERR_LEN:\<close>, the identical error payload.
\<close>

theorem verdict_record_round_trip:
  assumes "CHR 0x00 \<notin> set stdout_content" and "CHR 0x00 \<notin> set stderr_content"
    and "length (spec_verdict_record code stdout_content stderr_content) \<le> 4095"
    and "- (2 ^ 31) \<le> code" and "code < 2 ^ 31"
  shows "\<exists>response.
           send_to_sandbox True (write_result_to_mmap code stdout_content stderr_content)
             = Some response
           \<and> response = spec_verdict_record code stdout_content stderr_content
           \<and> parse_exit_code response = code
           \<and> (\<not> contains stdout_content ''STDERR_LEN:''
                \<longrightarrow> parse_stderr response = stderr_content)"
proof -
  let ?rec = "spec_verdict_record code stdout_content stderr_content"
  have c: "c_str stdout_content = stdout_content" "c_str stderr_content = stderr_content"
    using assms(1,2) by (simp_all add: c_str_id)
  have w: "write_result_to_mmap code stdout_content stderr_content = ?rec"
    using write_result_layout [of code stdout_content stderr_content] assms(3)
    unfolding c by simp
  have "CHR 0x00 \<notin> set ?rec" using assms(1,2) by (rule record_no_nul)
  then have "c_str ?rec = ?rec" by (rule c_str_id)
  then have s: "send_to_sandbox True (write_result_to_mmap code stdout_content stderr_content)
                = Some ?rec"
    using assms(3) by (simp add: send_to_sandbox_def w)
  have "?rec = ''EXIT_CODE:'' @ show_int code @ CHR 0x0A #
               (''STDOUT_LEN:'' @ show_nat (length stdout_content) @ [CHR 0x0A] @ ''STDOUT:''
                @ stdout_content @ [CHR 0x0A] @ ''STDERR_LEN:''
                @ show_nat (length stderr_content) @ [CHR 0x0A] @ ''STDERR:'' @ stderr_content
                @ [CHR 0x0A])"
    by (simp add: spec_verdict_record_def)
  then have e: "parse_exit_code ?rec = code"
    using parse_exit_code_head [OF assms(4,5)] by simp
  have "length stderr_content < 4096"
    using assms(3) by (simp add: spec_verdict_record_def)
  then have p: "\<not> contains stdout_content ''STDERR_LEN:''
                \<longrightarrow> parse_stderr ?rec = stderr_content"
    using parse_stderr_record [of stdout_content stderr_content code]
    by (simp add: contains_def)
  show ?thesis using s e p by blast
qed

theorem verdict_record_round_trip_witness:
  "CHR 0x00 \<notin> set (''line 1'' @ [CHR 0x0A] @ ''line 2'')
   \<and> CHR 0x00 \<notin> set (''warn:'' @ [CHR 0x0A, CHR 0x09] @ ''x'')
   \<and> length (spec_verdict_record (- 1) (''line 1'' @ [CHR 0x0A] @ ''line 2'')
               (''warn:'' @ [CHR 0x0A, CHR 0x09] @ ''x'')) \<le> 4095
   \<and> \<not> contains (''line 1'' @ [CHR 0x0A] @ ''line 2'') ''STDERR_LEN:''
   \<and> (\<exists>response.
         send_to_sandbox True (write_result_to_mmap (- 1) (''line 1'' @ [CHR 0x0A] @ ''line 2'')
             (''warn:'' @ [CHR 0x0A, CHR 0x09] @ ''x'')) = Some response
         \<and> parse_exit_code response = - 1
         \<and> parse_stderr response = ''warn:'' @ [CHR 0x0A, CHR 0x09] @ ''x'')"
proof -
  let ?o = "''line 1'' @ [CHR 0x0A] @ ''line 2''"
  let ?e = "''warn:'' @ [CHR 0x0A, CHR 0x09] @ ''x''"
  have h1: "CHR 0x00 \<notin> set ?o" by simp
  have h2: "CHR 0x00 \<notin> set ?e" by simp
  have h3: "length (spec_verdict_record (- 1) ?o ?e) \<le> 4095"
    by (simp add: spec_verdict_record_def show_int_def show_nat.simps)
  have h4: "- (2 ^ 31) \<le> (- 1 :: int)" by simp
  have h5: "(- 1 :: int) < 2 ^ 31" by simp
  have h6: "\<not> contains ?o ''STDERR_LEN:''" by (simp add: contains_def)
  have r: "\<exists>response.
         send_to_sandbox True (write_result_to_mmap (- 1) ?o ?e) = Some response
         \<and> parse_exit_code response = - 1
         \<and> parse_stderr response = ?e"
    using verdict_record_round_trip [OF h1 h2 h3 h4 h5] h6 by blast
  show ?thesis using h1 h2 h3 h6 r by (intro conjI)
qed

subsection \<open>An echoed exit code\<close>

text \<open>
  Claim C4, as stated, fails for a nonzero echoed exit code: the sandbox reports the
  parsed code itself, the frontend answers \<open>-2\<close> for a nonzero code, and the
  dispatcher hands the command to the backend.
\<close>

theorem nonzero_exit_code_counterexample:
  "read_output (script [PtyTimeout, PtyTimeout, PtyData (''EXIT_CODE:1'' @ [CHR 0x0A] @ ''$ '')])
      ''$ '' 2 loop_start
     = Some (4, \<lparr>out = ''EXIT_CODE:1'' @ [CHR 0x0A] @ ''$ '', prompt_detected = True,
                   attempts = 1, consecutive_empty_reads = 0\<rparr>)
   \<and> cleaned_output ''grep zzz /etc/hostname''
         \<lparr>out = ''EXIT_CODE:1'' @ [CHR 0x0A] @ ''$ '', prompt_detected = True,
          attempts = 1, consecutive_empty_reads = 0\<rparr> = ''EXIT_CODE:1''
   \<and> \<not> has_error_indicator ''EXIT_CODE:1''
   \<and> handle_client_request \<lparr>bash_ready = True, mmap_mapped = True, mmap_text = []\<rparr>
         (script [PtyTimeout, PtyTimeout, PtyData (''EXIT_CODE:1'' @ [CHR 0x0A] @ ''$ '')])
         True ''grep zzz /etc/hostname''
       = Some ([PtyWrite (full_cmd ''grep zzz /etc/hostname''), PtyWrite ps1_query,
                MmapWrite (write_result_to_mmap 1 [] []), SockSend ''OK''],
               \<lparr>bash_ready = True, mmap_mapped = True,
                mmap_text = write_result_to_mmap 1 [] []\<rparr>)
   \<and> test_command_in_sandbox True True (write_result_to_mmap 1 [] []) = - 2
   \<and> \<not> is_ai_query ''grep zzz /etc/hostname''
   \<and> execute_command_securely True True 1 256
         (test_command_in_sandbox True True (write_result_to_mmap 1 [] [])) 0
         ''grep zzz /etc/hostname''
       = [System ''grep zzz /etc/hostname'', PrintThinking,
          SendToBackendDirectly ''grep zzz /etc/hostname'']"
proof -
  let ?pty = "script [PtyTimeout, PtyTimeout, PtyData (''EXIT_CODE:1'' @ [CHR 0x0A] @ ''$ '')]"
  let ?st = "\<lparr>out = ''EXIT_CODE:1'' @ [CHR 0x0A] @ ''$ '', prompt_detected = True,
                   attempts = 1, consecutive_empty_reads = 0\<rparr>"
  have c: "clear_pty ?pty 0 = Some (Suc 0)"
    by (simp add: clear_pty.simps script_def)
  have p: "probe_ps1 (?pty (Suc 0)) = ''$ ''"
    by (simp add: probe_ps1_def script_def)
  have l: "read_output ?pty ''$ '' 2 loop_start = Some (4, ?st)"
    by (simp add: read_output.simps script_def loop_start_def contains_def c_str_def)
  have o: "cleaned_output ''grep zzz /etc/hostname'' ?st = ''EXIT_CODE:1''"
    by (simp add: cleaned_output_def c_str_def contains_def filter_lines.simps)
  have e: "\<not> has_error_indicator ''EXIT_CODE:1''"
    by (simp add: has_error_indicator_def contains_def)
  have x: "execute_command_in_sandbox True ?pty True ''grep zzz /etc/hostname''
           = Some \<lparr>res_ret = 0, res_exit_code = 1, res_stdout = [], res_stderr = [],
                   res_writes = [full_cmd ''grep zzz /etc/hostname'', ps1_query], res_pos = 4\<rparr>"
    using c p l o e
    by (simp add: execute_command_in_sandbox_def classify_def numeral_2_eq_2
        remove_exit_code_line_def atoi_def strtol_def to_int32_def digit_val_def isspace_def)
  have h: "handle_client_request \<lparr>bash_ready = True, mmap_mapped = True, mmap_text = []\<rparr>
         ?pty True ''grep zzz /etc/hostname''
       = Some ([PtyWrite (full_cmd ''grep zzz /etc/hostname''), PtyWrite ps1_query,
                MmapWrite (write_result_to_mmap 1 [] []), SockSend ''OK''],
               \<lparr>bash_ready = True, mmap_mapped = True,
                mmap_text = write_result_to_mmap 1 [] []\<rparr>)"
    using x by (simp add: handle_client_request_def publish_def c_str_def Let_def)
  have t: "write_result_to_mmap 1 [] []
           = ''EXIT_CODE:1'' @ [CHR 0x0A] @ ''STDOUT_LEN:0'' @ [CHR 0x0A] @ ''STDOUT:''
             @ [CHR 0x0A] @ ''STDERR_LEN:0'' @ [CHR 0x0A] @ ''STDERR:'' @ [CHR 0x0A]"
    by (simp add: write_result_to_mmap_def write_payload_def write_exit_code_def MMAP_SIZE_def
        c_str_def show_int_def show_nat.simps digit_char_def)
  have v: "test_command_in_sandbox True True (write_result_to_mmap 1 [] []) = - 2"
    unfolding t
    by (simp add: test_command_in_sandbox_def send_to_sandbox_def c_str_def contains_def
        parse_exit_code_def parse_stderr_def atoi_def strtol_def to_int32_def digit_val_def
        isspace_def)
  have q: "\<not> is_ai_query ''grep zzz /etc/hostname''"
    by (simp add: is_ai_query_def ai_indicators_def tolower_def contains_def has_char_def
        scan_word_def isspace_def)
  have d: "execute_command_securely True True 1 256
         (test_command_in_sandbox True True (write_result_to_mmap 1 [] [])) 0
         ''grep zzz /etc/hostname''
       = [System ''grep zzz /etc/hostname'', PrintThinking,
          SendToBackendDirectly ''grep zzz /etc/hostname'']"
    unfolding v using q by (simp add: execute_command_securely_def route_to_ai_def)
  show ?thesis
    using l o e h v q d by (intro conjI)
qed

text \<open>
  The cleaned output holds no newline, so removing the line of the marker removes all
  of it: in this branch the published record has empty payloads.
\<close>

lemma filter_lines_no_newline: "CHR 0x0A \<notin> set (filter_lines cmd s)"
proof (induction cmd s rule: filter_lines.induct)
  case (1 cmd s)
  show ?case
  proof (cases "s = []")
    case True
    then show ?thesis by (subst filter_lines.simps) simp
  next
    case False
    have t: "CHR 0x0A \<notin> set (takeWhile (\<lambda>c. c \<noteq> CHR 0x0A) s)"
      using set_takeWhileD by fastforce
    have r: "CHR 0x0A \<notin> set (filter_lines cmd
               (case dropWhile (\<lambda>c. c \<noteq> CHR 0x0A) s of [] \<Rightarrow> []
                | c # r \<Rightarrow> if c = CHR 0x0A then r else c # r))"
      using 1 [OF False refl refl refl] .
    show ?thesis
      using False t r by (subst filter_lines.simps) (simp add: Let_def)
  qed
qed

lemma strip_escapes_step:
  "strip_escapes b (c # cs) = strip_escapes True cs
   \<or> strip_escapes b (c # cs) = strip_escapes False cs
   \<or> strip_escapes b (c # cs) = c # strip_escapes False cs"
  by (cases "c = CHR 0x1B"; cases b; cases "c \<in> set ''mlhJKH''") (simp_all del: set_simps)

lemma strip_escapes_mem: "x \<in> set (strip_escapes b s) \<Longrightarrow> x \<in> set s"
proof (induction s arbitrary: b)
  case Nil
  then show ?case by simp
next
  case (Cons c cs)
  from strip_escapes_step [of b c cs] Cons.prems
  have "x \<in> set (strip_escapes True cs) \<or> x \<in> set (strip_escapes False cs) \<or> x = c"
    by (elim disjE) (auto simp del: strip_escapes.simps)
  then show ?case using Cons.IH by auto
qed

lemma strip_escapes_subset: "set (strip_escapes b s) \<subseteq> set s"
  using strip_escapes_mem by blast

lemma cleaned_output_no_newline: "CHR 0x0A \<notin> set (cleaned_output cmd st)"
  unfolding cleaned_output_def
  using filter_lines_no_newline strip_escapes_subset by blast

lemma strstr_suffix: "strstr s n = Some l \<Longrightarrow> suffix l s"
  by (induction s) (auto split: if_splits simp: suffix_Cons)

lemma dropWhile_all: "CHR 0x0A \<notin> set s \<Longrightarrow> dropWhile (\<lambda>c. c \<noteq> CHR 0x0A) s = []"
  by (induction s) auto

lemma remove_exit_code_line_single:
  assumes "CHR 0x0A \<notin> set stdout_content" and "strstr stdout_content n = Some l"
  shows "remove_exit_code_line stdout_content l = []"
proof -
  have "suffix l stdout_content" using assms(2) by (rule strstr_suffix)
  then have "set l \<subseteq> set stdout_content" by (rule set_mono_suffix)
  then have a: "dropWhile (\<lambda>c. c \<noteq> CHR 0x0A) l = []"
    using assms(1) by (intro dropWhile_all) blast
  have "set (rev (take (length stdout_content - length l) stdout_content)) \<subseteq> set stdout_content"
    by (simp add: set_take_subset)
  then have b: "dropWhile (\<lambda>c. c \<noteq> CHR 0x0A)
                  (rev (take (length stdout_content - length l) stdout_content)) = []"
    using assms(1) by (intro dropWhile_all) blast
  show ?thesis by (simp add: remove_exit_code_line_def a b)
qed

lemma show_nat_0: "show_nat 0 = ''0''"
  by (simp add: show_nat.simps digit_char_def)

lemma empty_record_text:
  "spec_verdict_record e [] []
   = ''EXIT_CODE:'' @ show_int e @ [CHR 0x0A] @ ''STDOUT_LEN:0'' @ [CHR 0x0A] @ ''STDOUT:''
     @ [CHR 0x0A] @ ''STDERR_LEN:0'' @ [CHR 0x0A] @ ''STDERR:'' @ [CHR 0x0A]"
  by (simp add: spec_verdict_record_def show_nat_0)

lemma empty_record_written:
  assumes "- (2 ^ 31) \<le> e" and "e < 2 ^ 31"
  shows "write_result_to_mmap e [] [] = spec_verdict_record e [] []"
    and "take 4095 (c_str (write_result_to_mmap e [] [])) = spec_verdict_record e [] []"
proof -
  have l: "length (show_int e) \<le> 11" using assms by (rule show_int_length)
  have c: "c_str [] = []" by (simp add: c_str_def)
  have n: "length (spec_verdict_record e [] []) \<le> 4095"
    using l by (simp add: empty_record_text)
  then have "length (spec_verdict_record e (c_str []) (c_str [])) < 1048575"
    unfolding c by simp
  then show w: "write_result_to_mmap e [] [] = spec_verdict_record e [] []"
    using write_result_layout [of e "[]" "[]"] unfolding c by simp
  have "CHR 0x00 \<notin> set (spec_verdict_record e [] [])"
    by (rule record_no_nul) simp_all
  then have "c_str (spec_verdict_record e [] []) = spec_verdict_record e [] []"
    by (rule c_str_id)
  then show "take 4095 (c_str (write_result_to_mmap e [] [])) = spec_verdict_record e [] []"
    using n w by simp
qed

lemma I_not_in_show_int: "CHR ''I'' \<notin> set (show_int e)"
  by (rule show_int_not) simp_all

lemma empty_record_not_interactive:
  "\<not> contains (spec_verdict_record e [] []) ''INTERACTIVE_COMMAND''"
proof -
  define t where "t = [CHR 0x0A] @ ''STDOUT_LEN:0'' @ [CHR 0x0A] @ ''STDOUT:''
     @ [CHR 0x0A] @ ''STDERR_LEN:0'' @ [CHR 0x0A] @ ''STDERR:'' @ [CHR 0x0A]"
  have r: "spec_verdict_record e [] [] = ''EXIT_CODE:'' @ show_int e @ t"
    by (simp add: empty_record_text t_def)
  have a: "strstr (''EXIT_CODE:'' @ show_int e @ t) ''INTERACTIVE_COMMAND''
           = strstr (show_int e @ t) ''INTERACTIVE_COMMAND''"
    by simp
  have b: "strstr (show_int e @ t) ''INTERACTIVE_COMMAND'' = strstr t ''INTERACTIVE_COMMAND''"
    by (rule strstr_skip_chars) (simp_all add: I_not_in_show_int)
  have c: "strstr t ''INTERACTIVE_COMMAND'' = None"
    unfolding t_def by simp
  show ?thesis
    unfolding contains_def r using a b c by simp
qed

lemma frontend_answer_empty_record:
  assumes "- (2 ^ 31) \<le> e" and "e < 2 ^ 31"
  shows "test_command_in_sandbox True True (write_result_to_mmap e [] [])
         = (if e = - 103 \<or> e = - 113 \<or> e = - 109 then e else if e = 0 then 0 else - 2)"
proof -
  let ?resp = "take 4095 (c_str (write_result_to_mmap e [] []))"
  have resp: "?resp = spec_verdict_record e [] []"
    using assms by (rule empty_record_written(2))
  have i: "\<not> contains ?resp ''INTERACTIVE_COMMAND''"
    unfolding resp by (rule empty_record_not_interactive)
  have p: "parse_exit_code ?resp = e"
    using assms by (rule parse_exit_code_response)
  have "parse_stderr (spec_verdict_record e [] []) = []"
    by (rule parse_stderr_record) simp_all
  then have s: "parse_stderr ?resp = []" unfolding resp .
  show ?thesis
    unfolding test_command_in_sandbox_unfold using i p s by simp
qed

text \<open>
  Claim C4, amended. When the loop has returned with the prompt seen and the cleaned
  output holds no error indicator but an \<^verbatim>\<open>EXIT_CODE:\<close> marker, the sandbox returns
  success with the parsed exit code as the verdict's code and with empty payloads, and
  the record it publishes is the exit code line followed by two empty payloads. The
  frontend, reading that record, answers \<open>0\<close> (valid) exactly when the code is zero,
  the code itself when it is -103, -113 or -109, and \<open>-2\<close> for every other code. In
  the dispatcher, after a failed direct run, the answer for code zero leads to the
  exit-code message (printed at verbosity 1 and above) and not to the backend, and the
  answer for any other code except the three special ones leads to the backend.
\<close>

theorem exit_code_marker_verdict:
  assumes "clear_pty pty 0 = Some k1"
    and "read_output pty (probe_ps1 (pty k1)) (Suc k1) loop_start = Some (k2, st)"
    and "prompt_detected st"
    and "\<not> has_error_indicator (cleaned_output cmd st)"
    and "strstr (cleaned_output cmd st) ''EXIT_CODE:'' = Some exit_code_line"
    and "result \<noteq> 0" and "backend_ready \<or> sandbox_ready"
    and "\<not> (is_ai_query line \<and> backend_ready)"
  shows "\<exists>r. execute_command_in_sandbox True pty True cmd = Some r \<and> res_ret r = 0
           \<and> res_exit_code r = atoi (drop 10 exit_code_line)
           \<and> res_stdout r = [] \<and> res_stderr r = []
           \<and> write_result_to_mmap (res_exit_code r) (res_stdout r) (res_stderr r)
               = ''EXIT_CODE:'' @ show_int (atoi (drop 10 exit_code_line)) @ [CHR 0x0A]
                 @ ''STDOUT_LEN:0'' @ [CHR 0x0A] @ ''STDOUT:'' @ [CHR 0x0A]
                 @ ''STDERR_LEN:0'' @ [CHR 0x0A] @ ''STDERR:'' @ [CHR 0x0A]
           \<and> test_command_in_sandbox True True
                 (write_result_to_mmap (res_exit_code r) (res_stdout r) (res_stderr r))
               = (if atoi (drop 10 exit_code_line) = - 103
                     \<or> atoi (drop 10 exit_code_line) = - 113
                     \<or> atoi (drop 10 exit_code_line) = - 109
                  then atoi (drop 10 exit_code_line)
                  else if atoi (drop 10 exit_code_line) = 0 then 0 else - 2)
           \<and> (atoi (drop 10 exit_code_line) = 0 \<longrightarrow>
                execute_command_securely backend_ready sandbox_ready verbose result
                  (test_command_in_sandbox True True
                     (write_result_to_mmap (res_exit_code r) (res_stdout r) (res_stderr r)))
                  interactive_result line
                = System line
                  # (if verbose \<ge> 1 then [PrintCommandFailed (wexitstatus result)] else []))
           \<and> (atoi (drop 10 exit_code_line) \<notin> {0, - 103, - 113, - 109} \<longrightarrow>
                execute_command_securely backend_ready sandbox_ready verbose result
                  (test_command_in_sandbox True True
                     (write_result_to_mmap (res_exit_code r) (res_stdout r) (res_stderr r)))
                  interactive_result line
                = System line
                  # (if backend_ready then [PrintThinking, SendToBackendDirectly line]
                     else [PrintNoBackend]))"
proof -
  let ?e = "atoi (drop 10 exit_code_line)"
  let ?r = "classify cmd [full_cmd cmd, ps1_query] k2 st"
  let ?rec = "write_result_to_mmap (res_exit_code ?r) (res_stdout ?r) (res_stderr ?r)"
  have x: "execute_command_in_sandbox True pty True cmd = Some ?r"
    by (rule execute_after_loop [OF assms(1,2)])
  have so: "remove_exit_code_line (cleaned_output cmd st) exit_code_line = []"
    using cleaned_output_no_newline assms(5) by (rule remove_exit_code_line_single)
  have r1: "res_ret ?r = 0" and r2: "res_exit_code ?r = ?e" and r3: "res_stdout ?r = []"
    and r4: "res_stderr ?r = []"
    using assms(3,4,5) so by (simp_all add: classify_def)
  have rng: "- (2 ^ 31) \<le> ?e" "?e < 2 ^ 31"
    using atoi_range [of "drop 10 exit_code_line"] by simp_all
  have w: "?rec = ''EXIT_CODE:'' @ show_int ?e @ [CHR 0x0A]
                 @ ''STDOUT_LEN:0'' @ [CHR 0x0A] @ ''STDOUT:'' @ [CHR 0x0A]
                 @ ''STDERR_LEN:0'' @ [CHR 0x0A] @ ''STDERR:'' @ [CHR 0x0A]"
    unfolding r2 r3 r4 empty_record_written(1) [OF rng] by (rule empty_record_text)
  have v: "test_command_in_sandbox True True ?rec
           = (if ?e = - 103 \<or> ?e = - 113 \<or> ?e = - 109 then ?e
              else if ?e = 0 then 0 else - 2)"
    unfolding r2 r3 r4 by (rule frontend_answer_empty_record [OF rng])
  have d0: "?e = 0 \<longrightarrow>
            execute_command_securely backend_ready sandbox_ready verbose result
              (test_command_in_sandbox True True ?rec) interactive_result line
            = System line
              # (if verbose \<ge> 1 then [PrintCommandFailed (wexitstatus result)] else [])"
    unfolding v using assms(6,7,8) by (auto simp: execute_command_securely_def)
  have d2: "?e \<notin> {0, - 103, - 113, - 109} \<longrightarrow>
            execute_command_securely backend_ready sandbox_ready verbose result
              (test_command_in_sandbox True True ?rec) interactive_result line
            = System line
              # (if backend_ready then [PrintThinking, SendToBackendDirectly line]
                 else [PrintNoBackend])"
    unfolding v using assms(6,7,8)
    by (auto simp: execute_command_securely_def route_to_ai_def)
  show ?thesis
    using x r1 r2 r3 r4 w v d0 d2 by blast
qed

theorem exit_code_marker_verdict_witness:
  "clear_pty (script [PtyTimeout, PtyTimeout, PtyData (''EXIT_CODE:0'' @ [CHR 0x0A] @ ''$ '')]) 0
     = Some 1
   \<and> read_output (script [PtyTimeout, PtyTimeout, PtyData (''EXIT_CODE:0'' @ [CHR 0x0A] @ ''$ '')])
        ''$ '' 2 loop_start
     = Some (4, \<lparr>out = ''EXIT_CODE:0'' @ [CHR 0x0A] @ ''$ '', prompt_detected = True,
                   attempts = 1, consecutive_empty_reads = 0\<rparr>)
   \<and> \<not> has_error_indicator (cleaned_output ''test -f notes.txt''
         \<lparr>out = ''EXIT_CODE:0'' @ [CHR 0x0A] @ ''$ '', prompt_detected = True,
          attempts = 1, consecutive_empty_reads = 0\<rparr>)
   \<and> strstr (cleaned_output ''test -f notes.txt''
         \<lparr>out = ''EXIT_CODE:0'' @ [CHR 0x0A] @ ''$ '', prompt_detected = True,
          attempts = 1, consecutive_empty_reads = 0\<rparr>) ''EXIT_CODE:'' = Some ''EXIT_CODE:0''
   \<and> \<not> is_ai_query ''test -f notes.txt''
   \<and> atoi (drop 10 ''EXIT_CODE:0'') = 0
   \<and> (\<exists>r. execute_command_in_sandbox True
           (script [PtyTimeout, PtyTimeout, PtyData (''EXIT_CODE:0'' @ [CHR 0x0A] @ ''$ '')])
           True ''test -f notes.txt'' = Some r
         \<and> res_ret r = 0 \<and> res_exit_code r = 0 \<and> res_stdout r = [] \<and> res_stderr r = []
         \<and> test_command_in_sandbox True True
               (write_result_to_mmap (res_exit_code r) (res_stdout r) (res_stderr r)) = 0
         \<and> execute_command_securely True True 1 256
               (test_command_in_sandbox True True
                  (write_result_to_mmap (res_exit_code r) (res_stdout r) (res_stderr r)))
               0 ''test -f notes.txt''
             = [System ''test -f notes.txt'', PrintCommandFailed 1])"
proof -
  let ?pty = "script [PtyTimeout, PtyTimeout, PtyData (''EXIT_CODE:0'' @ [CHR 0x0A] @ ''$ '')]"
  let ?st = "\<lparr>out = ''EXIT_CODE:0'' @ [CHR 0x0A] @ ''$ '', prompt_detected = True,
                   attempts = 1, consecutive_empty_reads = 0\<rparr>"
  have h1: "clear_pty ?pty 0 = Some 1"
    by (simp add: clear_pty.simps script_def)
  have p: "probe_ps1 (?pty 1) = ''$ ''"
    by (simp add: probe_ps1_def script_def)
  have l: "read_output ?pty ''$ '' 2 loop_start = Some (4, ?st)"
    by (simp add: read_output.simps script_def loop_start_def contains_def c_str_def)
  have h2: "read_output ?pty (probe_ps1 (?pty 1)) (Suc 1) loop_start = Some (4, ?st)"
    using l p by (simp add: numeral_2_eq_2)
  have h3: "prompt_detected ?st" by simp
  have o: "cleaned_output ''test -f notes.txt'' ?st = ''EXIT_CODE:0''"
    by (simp add: cleaned_output_def c_str_def contains_def filter_lines.simps)
  have h4: "\<not> has_error_indicator (cleaned_output ''test -f notes.txt'' ?st)"
    unfolding o by (simp add: has_error_indicator_def contains_def)
  have h5: "strstr (cleaned_output ''test -f notes.txt'' ?st) ''EXIT_CODE:'' = Some ''EXIT_CODE:0''"
    unfolding o by simp
  have h6: "(256::int) \<noteq> 0" by simp
  have h7: "True \<or> True" by simp
  have q: "\<not> is_ai_query ''test -f notes.txt''"
    by (simp add: is_ai_query_def ai_indicators_def tolower_def contains_def has_char_def
        scan_word_def isspace_def)
  then have h8: "\<not> (is_ai_query ''test -f notes.txt'' \<and> True)" by simp
  have e: "atoi (drop 10 ''EXIT_CODE:0'') = 0"
    by (simp add: atoi_def strtol_def to_int32_def digit_val_def isspace_def)
  have x: "wexitstatus 256 = 1" by (simp add: wexitstatus_def)
  from exit_code_marker_verdict [OF h1 h2 h3 h4 h5 h6 h7 h8, of 1 0]
  obtain r where r: "execute_command_in_sandbox True ?pty True ''test -f notes.txt'' = Some r"
      "res_ret r = 0" "res_exit_code r = atoi (drop 10 ''EXIT_CODE:0'')"
      "res_stdout r = []" "res_stderr r = []"
    and v: "test_command_in_sandbox True True
              (write_result_to_mmap (res_exit_code r) (res_stdout r) (res_stderr r))
            = (if atoi (drop 10 ''EXIT_CODE:0'') = - 103
                     \<or> atoi (drop 10 ''EXIT_CODE:0'') = - 113
                     \<or> atoi (drop 10 ''EXIT_CODE:0'') = - 109
                  then atoi (drop 10 ''EXIT_CODE:0'')
                  else if atoi (drop 10 ''EXIT_CODE:0'') = 0 then 0 else - 2)"
    and d: "atoi (drop 10 ''EXIT_CODE:0'') = 0 \<longrightarrow>
            execute_command_securely True True 1 256
              (test_command_in_sandbox True True
                 (write_result_to_mmap (res_exit_code r) (res_stdout r) (res_stderr r)))
              0 ''test -f notes.txt''
            = System ''test -f notes.txt''
              # (if (1::int) \<ge> 1 then [PrintCommandFailed (wexitstatus 256)] else [])"
    by blast
  have v0: "test_command_in_sandbox True True
              (write_result_to_mmap (res_exit_code r) (res_stdout r) (res_stderr r)) = 0"
    using v unfolding e by simp
  have d0: "execute_command_securely True True 1 256
              (test_command_in_sandbox True True
                 (write_result_to_mmap (res_exit_code r) (res_stdout r) (res_stderr r)))
              0 ''test -f notes.txt''
            = [System ''test -f notes.txt'', PrintCommandFailed 1]"
    using d e x by simp
  have "\<exists>r. execute_command_in_sandbox True ?pty True ''test -f notes.txt'' = Some r
         \<and> res_ret r = 0 \<and> res_exit_code r = 0 \<and> res_stdout r = [] \<and> res_stderr r = []
         \<and> test_command_in_sandbox True True
               (write_result_to_mmap (res_exit_code r) (res_stdout r) (res_stderr r)) = 0
         \<and> execute_command_securely True True 1 256
               (test_command_in_sandbox True True
                  (write_result_to_mmap (res_exit_code r) (res_stdout r) (res_stderr r)))
               0 ''test -f notes.txt''
             = [System ''test -f notes.txt'', PrintCommandFailed 1]"
    using r e v0 d0 by (intro exI [of _ r]) simp
  then show ?thesis
    using h1 l h4 h5 q e by (intro conjI)
qed

subsection \<open>The request handler\<close>

text \<open>
  When the validator returns, the handler writes the region once and then sends one
  acknowledgment.
\<close>

lemma handle_client_request_trace:
  assumes "take 1023 received \<noteq> []"
    and "execute_command_in_sandbox (bash_ready srv) pty write_ok (c_str (take 1023 received))
           = Some r"
    and "mmap_mapped srv"
  shows "\<exists>text ack. handle_client_request srv pty write_ok received
           = Some (map PtyWrite (res_writes r) @ [MmapWrite text, SockSend ack],
                   srv\<lparr>mmap_text := text\<rparr>)
         \<and> (ack = ''OK'' \<or> ack = ''ERROR'')"
  using assms by (simp add: handle_client_request_def publish_def Let_def)

text \<open>
  Claim C9 at a request that delivers the command \<^verbatim>\<open>yes\<close>, with the PTY delivering
  output at every \<^verbatim>\<open>select\<close> after the command was sent: the handler never returns,
  so no record is written and no acknowledgment is sent.
\<close>

theorem request_never_answered:
  "handle_client_request \<lparr>bash_ready = True, mmap_mapped = True, mmap_text = t\<rparr>
     (\<lambda>k. if k = 0 then PtyTimeout else PtyData ''y'') True ''yes'' = None"
  by (simp add: handle_client_request_def execute_steady_output c_str_def)

text \<open>
  Claim C10. A connection on which \<^verbatim>\<open>recv\<close> returned zero or an error: the handler
  returns with an empty trace (nothing written to the PTY, no write of the region, no
  acknowledgment) and the server's state, the stored record included, is unchanged.
\<close>

theorem empty_request_ignored:
  "handle_client_request srv pty write_ok [] = Some ([], srv)"
  by (simp add: handle_client_request_def)

end
